theory Spec2Isabelle
  imports Complex_Main "HOL-Library.Word"
begin

section \<open>Data model of the interpreter (package main)\<close>

text \<open>
  Key codes are \<open>uint16\<close>. A \<open>*Layer\<close> is an address into a store of Layer objects and a
  \<open>[]uint16\<close> key combo is an address into a store of arrays, so that pointer comparison
  (\<open>currentLayer != config.Layers[0]\<close>) and the sharing of a combo's backing array are
  what they are in Go. An address outside its store is the nil pointer (nil slice).
  \<open>float64\<close> payloads are idealised as reals.
\<close>

type_synonym keycode = "16 word"
type_synonym layer_ptr = nat
type_synonym array_ptr = nat
type_synonym button = "16 word"

text \<open>\<open>evdev.KEY_ESC\<close>, the Linux key code of Escape.\<close>

definition KEY_ESC :: keycode where
  "KEY_ESC = 1"

text \<open>
  The binding variants, with the fields that the code reads. The Go value is an
  \<open>interface{}\<close>: \<open>NilBinding\<close> is the nil interface, \<open>OtherBinding\<close> any dynamic type
  that no type switch of the program names.
\<close>

datatype Binding =
    NilBinding
  | MultiBinding "Binding list"
  | TapHoldBinding Binding Binding
  | LayerBinding string
  | ToggleLayerBinding string
  | ReloadConfigBinding
  | KeyBinding array_ptr
  | ButtonBinding button
  | ExecBinding string
  | SpeedBinding real
  | ScrollBinding real real
  | MoveBinding real real
  | OtherBinding

text \<open>\<open>TapHoldBinding tap hold\<close>: the fields \<open>TapBinding\<close> and \<open>HoldBinding\<close>, in this order.\<close>

record Layer =
  Name :: string
  Bindings :: "(keycode \<times> Binding) list"
  WildcardBinding :: Binding
  PassThrough :: bool

record Config =
  Layers :: "layer_ptr list"
  BaseMouseSpeed :: real
  StartMouseSpeed :: real
  BaseScrollSpeed :: real
  MouseAccelerationTime :: real
  MouseDecelerationTime :: real
  MouseAccelerationCurve :: real
  MouseDecelerationCurve :: real

record KeyboardEvent =
  code :: keycode
  isPress :: bool
  holdKey :: bool

datatype level = Debug | Info | Warn | Error

text \<open>
  What the program does to the outside: calls of the logger, of the virtual keyboard and
  mouse, and spawned commands. A log call is recorded with its level and its format
  string (the message itself when there is no format); the arguments are left out.
\<close>

text \<open>
  The result of a \<open>float64\<close> division: a zero divisor yields an infinity in Go, or NaN
  when the dividend is zero as well, and no error.
\<close>

datatype quotient = Finite real | Infinite | NotANumber

datatype effect =
    Log level string
  | PressKeys keycode "keycode list"
  | ButtonPress keycode button
  | KeyboardOriginalKeyUp keycode
  | MouseOriginalKeyUp keycode
  | ExecCommand string int keycode
  | MouseScroll real real
  | MouseMove real real real real real quotient real quotient real

text \<open>
  The globals of package main, the two stores, the number of times the configuration file
  has been read, and the trace of effects. A slice variable is \<open>None\<close> when nil.
\<close>

record globals =
  config :: Config
  currentLayer :: layer_ptr
  toggleLayerKeys :: "keycode list option"
  toggleLayerPrevious :: "layer_ptr list option"
  layerStore :: "Layer list"
  arrayStore :: "keycode list list"
  configReads :: nat
  trace :: "effect list"

datatype error =
    OsExit int globals
  | Panic string

text \<open>
  What \<open>handleKey\<close> and \<open>executeBinding\<close> take from elsewhere, as parameters: the
  wildcard sentinel and the alias table of the configuration package, the outcome of
  running a command (\<open>None\<close> on success), and the configuration parser. The n-th call of
  the parser returns an error, or a configuration together with the Layer objects and the
  arrays it allocated for it.
\<close>

record env =
  WildcardKey :: keycode
  keyAliasesReversed :: "keycode \<Rightarrow> int"
  runCommand :: "string \<Rightarrow> string option"
  parseConfig :: "nat \<Rightarrow> string + (Config \<times> Layer list \<times> keycode list list)"

section \<open>Slices and stores\<close>

definition elems :: "'a list option \<Rightarrow> 'a list" where
  "elems s = (case s of None \<Rightarrow> [] | Some xs \<Rightarrow> xs)"

definition append_slice :: "'a list option \<Rightarrow> 'a \<Rightarrow> 'a list option" where
  "append_slice s x = Some (elems s @ [x])"

definition deref :: "Layer list \<Rightarrow> layer_ptr \<Rightarrow> error + Layer" where
  "deref ls p = (if p < length ls then Inr (ls ! p) else Inl (Panic ''nil pointer dereference''))"

definition arrayAt :: "keycode list list \<Rightarrow> array_ptr \<Rightarrow> keycode list" where
  "arrayAt as a = (if a < length as then as ! a else [])"

definition logf :: "level \<Rightarrow> string \<Rightarrow> globals \<Rightarrow> globals" where
  "logf l m st = st\<lparr>trace := trace st @ [Log l m]\<rparr>"

definition emit :: "effect \<Rightarrow> globals \<Rightarrow> globals" where
  "emit e st = st\<lparr>trace := trace st @ [e]\<rparr>"

text \<open>\<open>make([]uint16, n)\<close>: a new zeroed array at a fresh address.\<close>

definition make_array :: "nat \<Rightarrow> globals \<Rightarrow> array_ptr \<times> globals" where
  "make_array n st =
     (length (arrayStore st), st\<lparr>arrayStore := arrayStore st @ [replicate n 0]\<rparr>)"

text \<open>\<open>[]uint16{c}\<close>: a new one-element array.\<close>

definition array_literal :: "keycode list \<Rightarrow> globals \<Rightarrow> array_ptr \<times> globals" where
  "array_literal xs st =
     (length (arrayStore st), st\<lparr>arrayStore := arrayStore st @ [xs]\<rparr>)"

text \<open>\<open>keys[i] = v\<close> for an index in range.\<close>

definition write_array :: "array_ptr \<Rightarrow> nat \<Rightarrow> keycode \<Rightarrow> globals \<Rightarrow> globals" where
  "write_array a i v st =
     st\<lparr>arrayStore := (arrayStore st)[a := (arrayAt (arrayStore st) a)[i := v]]\<rparr>"

text \<open>\<open>copy(dst, src)\<close>: the first \<open>min (len dst) (len src)\<close> elements.\<close>

definition copy_array :: "array_ptr \<Rightarrow> array_ptr \<Rightarrow> globals \<Rightarrow> globals" where
  "copy_array dst src st =
     (let d = arrayAt (arrayStore st) dst; s = arrayAt (arrayStore st) src;
          n = min (length d) (length s)
      in st\<lparr>arrayStore := (arrayStore st)[dst := take n s @ drop n d]\<rparr>)"

section \<open>loadConfig and exitError\<close>

definition exitError :: "string option \<Rightarrow> string \<Rightarrow> globals \<Rightarrow> error" where
  "exitError err msg st =
     OsExit 1 (logf Error ''Exiting''
       (case err of
          Some e \<Rightarrow> logf Error (msg @ '': %v'') st
        | None \<Rightarrow> logf Error msg st))"

text \<open>
  \<open>readConfig\<close> belongs to the configuration package; what it returns is the parameter
  \<open>parseConfig\<close>. The call reads the file once more and, on success, the objects that the
  parser allocated are new ones, at the end of the stores.
\<close>

definition readConfig :: "env \<Rightarrow> globals \<Rightarrow> (string + Config) \<times> globals" where
  "readConfig E st =
     (case parseConfig E (configReads st) of
        Inl err \<Rightarrow> (Inl err, st\<lparr>configReads := Suc (configReads st)\<rparr>)
      | Inr (cfg, ls, as) \<Rightarrow>
          (Inr cfg, st\<lparr>configReads := Suc (configReads st),
                       layerStore := layerStore st @ ls,
                       arrayStore := arrayStore st @ as\<rparr>))"

text \<open>
  When \<open>readConfig\<close> fails, the assignment has already overwritten \<open>config\<close> with what
  came back with the error; the process exits at once, so that value is never read and the
  model leaves the field alone.
\<close>

definition loadConfig :: "env \<Rightarrow> globals \<Rightarrow> error + globals" where
  "loadConfig E st =
     (case readConfig E st of
        (Inl err, st1) \<Rightarrow> Inl (exitError (Some err) ''Failed to read the config file'' st1)
      | (Inr cfg, st1) \<Rightarrow>
          (case Layers cfg of
             [] \<Rightarrow> Inl (Panic ''index out of range'')
           | p # _ \<Rightarrow>
               (case deref (layerStore st1) p of
                  Inl e \<Rightarrow> Inl e
                | Inr _ \<Rightarrow>
                    Inr (logf Debug ''Switching to initial layer %s''
                          (st1\<lparr>config := cfg, currentLayer := p\<rparr>)))))"

section \<open>executeBinding\<close>

text \<open>The loop over \<open>config.Layers\<close> that looks a layer up by name.\<close>

fun findLayer :: "Layer list \<Rightarrow> layer_ptr list \<Rightarrow> string \<Rightarrow> error + layer_ptr option" where
  "findLayer ls [] n = Inr None"
| "findLayer ls (p # ps) n =
     (case deref ls p of
        Inl e \<Rightarrow> Inl e
      | Inr l \<Rightarrow> if Name l = n then Inr (Some p) else findLayer ls ps n)"

text \<open>The loop that replaces every wildcard of the copy by the key that was pressed.\<close>

definition replaceWildcards :: "env \<Rightarrow> keycode \<Rightarrow> array_ptr \<Rightarrow> globals \<Rightarrow> globals" where
  "replaceWildcards E c a st =
     fold (\<lambda>i s. if arrayAt (arrayStore s) a ! i = WildcardKey E then write_array a i c s else s)
          [0 ..< length (arrayAt (arrayStore st) a)] st"

definition logExecuting :: "globals \<Rightarrow> globals" where
  "logExecuting st = logf Debug ''Executing %T: %+v'' st"

fun executeBinding :: "env \<Rightarrow> KeyboardEvent \<Rightarrow> Binding \<Rightarrow> globals \<Rightarrow> error + globals"
  and executeBindings :: "env \<Rightarrow> KeyboardEvent \<Rightarrow> Binding list \<Rightarrow> globals \<Rightarrow> error + globals"
where
  "executeBindings E ev [] st = Inr st"
| "executeBindings E ev (b # bs) st =
     (case executeBinding E ev b st of
        Inl e \<Rightarrow> Inl e
      | Inr st' \<Rightarrow> executeBindings E ev bs st')"
| "executeBinding E ev (MultiBinding bs) st = executeBindings E ev bs (logExecuting st)"
| "executeBinding E ev (TapHoldBinding tap hold) st =
     (if holdKey ev then executeBinding E ev hold (logExecuting st)
      else executeBinding E ev tap (logExecuting st))"
| "executeBinding E ev (LayerBinding n) st =
     (let st0 = logExecuting st in
      if isPress ev then
        (let st1 = (if toggleLayerPrevious st0 \<noteq> None
                    then st0\<lparr>toggleLayerKeys := None, toggleLayerPrevious := None\<rparr>
                    else st0)
         in case findLayer (layerStore st1) (Layers (config st1)) n of
              Inl e \<Rightarrow> Inl e
            | Inr None \<Rightarrow> Inr st1
            | Inr (Some p) \<Rightarrow>
                Inr ((logf Debug ''Switching to layer %v'' st1)\<lparr>currentLayer := p\<rparr>))
      else Inr st0)"
| "executeBinding E ev (ToggleLayerBinding n) st =
     (let st0 = logExecuting st in
      if isPress ev then
        (case findLayer (layerStore st0) (Layers (config st0)) n of
           Inl e \<Rightarrow> Inl e
         | Inr None \<Rightarrow> Inr st0
         | Inr (Some p) \<Rightarrow>
             (let st1 = logf Debug ''Switching to layer %v'' st0 in
              Inr (st1\<lparr>toggleLayerKeys := append_slice (toggleLayerKeys st1) (code ev),
                        toggleLayerPrevious :=
                          append_slice (toggleLayerPrevious st1) (currentLayer st1),
                        currentLayer := p\<rparr>)))
      else Inr st0)"
| "executeBinding E ev ReloadConfigBinding st =
     (let st0 = logExecuting st in
      if isPress ev then loadConfig E st0 else Inr st0)"
| "executeBinding E ev (KeyBinding combo) st =
     (let st0 = logExecuting st in
      if isPress ev then
        (let (keys, st1) = make_array (length (arrayAt (arrayStore st0) combo)) st0;
             st2 = copy_array keys combo st1;
             st3 = replaceWildcards E (code ev) keys st2
         in Inr (emit (PressKeys (code ev) (arrayAt (arrayStore st3) keys)) st3))
      else Inr st0)"
| "executeBinding E ev (ButtonBinding b) st =
     (let st0 = logExecuting st in
      if isPress ev then Inr (emit (ButtonPress (code ev) b) st0) else Inr st0)"
| "executeBinding E ev (ExecBinding cmd) st =
     (let st0 = logExecuting st in
      if isPress ev then
        (let st1 = emit (ExecCommand cmd (keyAliasesReversed E (code ev)) (code ev))
                     (logf Debug ''Executing: %s'' st0)
         in case runCommand E cmd of
              Some err \<Rightarrow> Inr (logf Warn ''Execution of command failed: %v'' st1)
            | None \<Rightarrow> Inr st1)
      else Inr st0)"
| "executeBinding E ev NilBinding st = Inr (logExecuting st)"
| "executeBinding E ev (SpeedBinding f) st = Inr (logExecuting st)"
| "executeBinding E ev (ScrollBinding x y) st = Inr (logExecuting st)"
| "executeBinding E ev (MoveBinding x y) st = Inr (logExecuting st)"
| "executeBinding E ev OtherBinding st = Inr (logExecuting st)"

section \<open>handleKey\<close>

text \<open>\<open>currentLayer.Bindings[event.code]\<close>: the zero value (nil) when the key is absent.\<close>

definition lookupBinding :: "(keycode \<times> Binding) list \<Rightarrow> keycode \<Rightarrow> Binding" where
  "lookupBinding bs c = (case map_of bs c of None \<Rightarrow> NilBinding | Some b \<Rightarrow> b)"

text \<open>The Escape fallback: the condition is evaluated left to right, with short circuit.\<close>

definition escapeFallback :: "KeyboardEvent \<Rightarrow> globals \<Rightarrow> Binding \<Rightarrow> error + Binding" where
  "escapeFallback ev st binding =
     (if binding = NilBinding \<and> code ev = KEY_ESC \<and> isPress ev then
        (case Layers (config st) of
           [] \<Rightarrow> Inl (Panic ''index out of range'')
         | p0 # _ \<Rightarrow>
             if currentLayer st \<noteq> p0 then
               (case deref (layerStore st) p0 of
                  Inl e \<Rightarrow> Inl e
                | Inr l0 \<Rightarrow> Inr (LayerBinding (Name l0)))
             else Inr binding)
      else Inr binding)"

text \<open>The binding that \<open>handleKey\<close> resolves for an event, before anything is executed.\<close>

definition resolveBinding :: "KeyboardEvent \<Rightarrow> globals \<Rightarrow> error + (Binding \<times> globals)" where
  "resolveBinding ev st =
     (case deref (layerStore st) (currentLayer st) of
        Inl e \<Rightarrow> Inl e
      | Inr cl \<Rightarrow>
          (case escapeFallback ev st (lookupBinding (Bindings cl) (code ev)) of
             Inl e \<Rightarrow> Inl e
           | Inr b1 \<Rightarrow>
               (let b2 = (if b1 = NilBinding \<and> WildcardBinding cl \<noteq> NilBinding
                          then WildcardBinding cl else b1)
                in if b2 = NilBinding \<and> PassThrough cl then
                     (let (a, st1) = array_literal [code ev] st in Inr (KeyBinding a, st1))
                   else Inr (b2, st))))"

text \<open>The index of the first occurrence of the released key in \<open>toggleLayerKeys\<close>.\<close>

fun findKey :: "keycode \<Rightarrow> keycode list \<Rightarrow> nat \<Rightarrow> nat option" where
  "findKey c [] i = None"
| "findKey c (k # ks) i = (if k = c then Some i else findKey c ks (Suc i))"

definition releaseToggle :: "KeyboardEvent \<Rightarrow> globals \<Rightarrow> error + globals" where
  "releaseToggle ev st =
     (if \<not> isPress ev then
        (case findKey (code ev) (elems (toggleLayerKeys st)) 0 of
           None \<Rightarrow> Inr st
         | Some i \<Rightarrow>
             if i < length (elems (toggleLayerPrevious st)) then
               (let st1 = st\<lparr>currentLayer := elems (toggleLayerPrevious st) ! i\<rparr> in
                case deref (layerStore st1) (currentLayer st1) of
                  Inl e \<Rightarrow> Inl e
                | Inr _ \<Rightarrow>
                    (let st2 = logf Debug ''Switching to layer %v'' st1 in
                     Inr (st2\<lparr>toggleLayerKeys := Some (take i (elems (toggleLayerKeys st2))),
                               toggleLayerPrevious :=
                                 Some (take i (elems (toggleLayerPrevious st2)))\<rparr>)))
             else Inl (Panic ''index out of range''))
      else Inr st)"

definition informKeyUp :: "KeyboardEvent \<Rightarrow> globals \<Rightarrow> globals" where
  "informKeyUp ev st =
     (if \<not> isPress ev
      then emit (MouseOriginalKeyUp (code ev)) (emit (KeyboardOriginalKeyUp (code ev)) st)
      else st)"

definition handleKey :: "env \<Rightarrow> KeyboardEvent \<Rightarrow> globals \<Rightarrow> error + globals" where
  "handleKey E ev st =
     (case resolveBinding ev st of
        Inl e \<Rightarrow> Inl e
      | Inr (binding, st1) \<Rightarrow>
          (case releaseToggle ev st1 of
             Inl e \<Rightarrow> Inl e
           | Inr st2 \<Rightarrow> executeBinding E ev binding (informKeyUp ev st2)))"

text \<open>The events that the main loop takes from the disambiguator, handled one after the other.\<close>

fun handleKeys :: "env \<Rightarrow> KeyboardEvent list \<Rightarrow> globals \<Rightarrow> error + globals" where
  "handleKeys E [] st = Inr st"
| "handleKeys E (ev # evs) st =
     (case handleKey E ev st of
        Inl e \<Rightarrow> Inl e
      | Inr st' \<Rightarrow> handleKeys E evs st')"

section \<open>The mouse part of mainLoop\<close>

text \<open>
  One pass of the second half of the loop body: the sums over the bindings of the current
  layer whose key is held, then either the calls of \<open>Scroll\<close> and \<open>Move\<close> with a 20 ms
  timer, or the timer of \<open>math.MaxInt64\<close> nanoseconds. \<open>tapHoldHandler.IsKeyPressed\<close> and
  \<open>mouse.IsMoving()\<close> are inputs. The association list is visited in its own order,
  which stands for the order in which \<open>range\<close> happens to visit the map. The result is
  the duration of the new \<open>mouseTimer\<close>, in nanoseconds.

  The \<open>float64\<close> arithmetic is idealised: the values are reals, and sums and products are
  exact, so neither the rounding of Go nor the order in which the map is visited shows in
  the sums. The two agree where every summand is zero, the sum then being zero in Go as
  well; with other summands the arguments of \<open>Scroll\<close> and \<open>Move\<close>, and a sum that
  cancels only up to rounding, can differ from what Go computes. A division by zero is
  kept apart from the finite quotients.
\<close>

definition fdiv :: "real \<Rightarrow> real \<Rightarrow> quotient" where
  "fdiv x y = (if y \<noteq> 0 then Finite (x / y) else if x = 0 then NotANumber else Infinite)"

definition mouseLoopInterval :: int where
  "mouseLoopInterval = 20 * 1000000"

definition MaxInt64 :: int where
  "MaxInt64 = 9223372036854775807"

definition accumulate ::
  "(keycode \<Rightarrow> bool) \<Rightarrow> keycode \<times> Binding \<Rightarrow> real \<times> real \<times> real \<times> real \<times> real
     \<Rightarrow> real \<times> real \<times> real \<times> real \<times> real" where
  "accumulate pressed cb acc =
     (case acc of (moveX, moveY, scrollX, scrollY, speedFactor) \<Rightarrow>
        if pressed (fst cb) then
          (case snd cb of
             SpeedBinding s \<Rightarrow> (moveX, moveY, scrollX, scrollY, speedFactor * s)
           | ScrollBinding x y \<Rightarrow> (moveX, moveY, scrollX + x, scrollY + y, speedFactor)
           | MoveBinding x y \<Rightarrow> (moveX + x, moveY + y, scrollX, scrollY, speedFactor)
           | _ \<Rightarrow> acc)
        else acc)"

definition mouseTick :: "(keycode \<Rightarrow> bool) \<Rightarrow> bool \<Rightarrow> globals \<Rightarrow> error + (int \<times> globals)" where
  "mouseTick pressed isMoving st =
     (case deref (layerStore st) (currentLayer st) of
        Inl e \<Rightarrow> Inl e
      | Inr cl \<Rightarrow>
          (case fold (accumulate pressed) (Bindings cl) (0, 0, 0, 0, 1) of
             (moveX, moveY, scrollX, scrollY, speedFactor) \<Rightarrow>
               if moveX \<noteq> 0 \<or> moveY \<noteq> 0 \<or> scrollX \<noteq> 0 \<or> scrollY \<noteq> 0 \<or> isMoving then
                 (let tickTime = real_of_int mouseLoopInterval / 1000000000;
                      moveSpeed = BaseMouseSpeed (config st) * tickTime;
                      scrollSpeed = BaseScrollSpeed (config st) * tickTime;
                      accelerationStep = fdiv (tickTime * 1000) (MouseAccelerationTime (config st));
                      decelerationStep = fdiv (tickTime * 1000) (MouseDecelerationTime (config st));
                      st1 = emit (MouseScroll (scrollX * scrollSpeed * speedFactor)
                                              (scrollY * scrollSpeed * speedFactor)) st;
                      st2 = emit (MouseMove (moveX * moveSpeed) (moveY * moveSpeed)
                                   (StartMouseSpeed (config st) * tickTime)
                                   (BaseMouseSpeed (config st) * tickTime)
                                   (MouseAccelerationCurve (config st)) accelerationStep
                                   (MouseDecelerationCurve (config st)) decelerationStep
                                   speedFactor) st1
                  in Inr (mouseLoopInterval, st2))
               else Inr (MaxInt64, st)))"

section \<open>The keyboard reader (package keyboard)\<close>

type_synonym timestamp = nat

record Event =
  Code :: keycode
  IsPress :: bool
  Time :: timestamp

text \<open>
  \<open>evdev.InputEvent\<close>: type and code are \<open>uint16\<close>, the value is \<open>int32\<close>. Its code
  field is called \<open>EvCode\<close> here, \<open>Code\<close> being the field of \<open>Event\<close>.
\<close>

record InputEvent =
  Type :: "16 word"
  EvCode :: keycode
  Value :: "32 word"

text \<open>\<open>evdev.EV_KEY\<close>, the Linux event type of key events.\<close>

definition EV_KEY :: "16 word" where
  "EV_KEY = 1"

datatype DeviceState = StateNotOpen | StateOpenFailed | StateOpen

text \<open>The \<open>Device\<close> struct; \<open>device\<close> is the handle of the opened device, \<open>None\<close> when nil.\<close>

record Device =
  deviceName :: string
  device :: "nat option"
  state :: DeviceState
  lastOpenError :: string

text \<open>What a reader does to the outside: log calls, sends on the event channel, and the
  start of the goroutine that reads the device.\<close>

datatype reader_effect =
    RLog level string
  | Send Event
  | GoReadKeyboard

text \<open>The outcome of \<open>evdev.Open\<close> followed by \<open>Grab\<close>, and of one \<open>Read\<close>; each event
  of a batch comes with the value of \<open>time.Now()\<close> at the moment it is handled.\<close>

datatype open_result = OpenFails string | GrabFails string | Opened nat

datatype read_result = ReadFails string | ReadEvents "(InputEvent \<times> timestamp) list"

definition NewKeyboardDevice :: "string \<Rightarrow> Device" where
  "NewKeyboardDevice n =
     \<lparr>deviceName = n, device = None, state = StateNotOpen, lastOpenError = []\<rparr>"

text \<open>\<open>openDevice\<close> returns the error, if any. The call \<open>log.Debug(device)\<close>, which has
  no format string, is recorded as \<open>%v\<close>.\<close>

definition openDevice :: "open_result \<Rightarrow> Device \<Rightarrow> string option \<times> reader_effect list \<times> Device" where
  "openDevice r k =
     (let es = [RLog Debug ''opening the keyboard device %v''] in
      case r of
        OpenFails err \<Rightarrow> (Some err, es, k\<lparr>state := StateOpenFailed\<rparr>)
      | GrabFails err \<Rightarrow> (Some err, es, k\<lparr>state := StateOpenFailed\<rparr>)
      | Opened h \<Rightarrow>
          (None,
           es @ [RLog Debug ''%v'', RLog Debug ''Device name: %s'',
                 RLog Debug ''Evdev protocol version: %d'', RLog Debug ''Device info: %s'',
                 GoReadKeyboard],
           k\<lparr>device := Some h, state := StateOpen\<rparr>))"

text \<open>One pass of the loop of \<open>ReadLoop\<close>, up to the wait for the next tick of the
  5-second ticker.\<close>

definition readLoopPass :: "open_result \<Rightarrow> Device \<Rightarrow> reader_effect list \<times> Device" where
  "readLoopPass r k =
     (if state k \<noteq> StateOpen then
        (case openDevice r k of
           (Some err, es, k1) \<Rightarrow>
             (let k2 = k1\<lparr>lastOpenError := err\<rparr> in
              if state k2 = StateOpenFailed
              then (es @ [RLog Debug ''Failed to open %v: %v''], k2)
              else (es @ [RLog Warn ''Failed to open %v: %v''], k2))
         | (None, es, k1) \<Rightarrow> (es, k1))
      else ([], k))"

text \<open>
  \<open>ReadLoop\<close> never returns; the model runs one pass for each tick that the list
  provides. A tick carries what opening the device would yield at that moment and whether
  the reading goroutine has met a read failure since the previous pass, in which case it
  has logged it and set the state to \<open>StateNotOpen\<close>.
\<close>

definition readFailure :: "bool \<Rightarrow> Device \<Rightarrow> reader_effect list \<times> Device" where
  "readFailure failed k =
     (if failed \<and> state k = StateOpen
      then ([RLog Warn ''Failed to read keyboard: %v''], k\<lparr>state := StateNotOpen\<rparr>)
      else ([], k))"

fun ReadLoop :: "(bool \<times> open_result) list \<Rightarrow> Device \<Rightarrow> reader_effect list \<times> Device" where
  "ReadLoop [] k = ([], k)"
| "ReadLoop ((failed, r) # ticks) k =
     (case readFailure failed k of (es0, k0) \<Rightarrow>
      case readLoopPass r k0 of (es1, k1) \<Rightarrow>
      case ReadLoop ticks k1 of (es2, k2) \<Rightarrow> (es0 @ es1 @ es2, k2))"

text \<open>The body of the loop over the events of one \<open>Read\<close> in \<open>readKeyboard\<close>.\<close>

definition forwardEvent :: "InputEvent \<times> timestamp \<Rightarrow> reader_effect list" where
  "forwardEvent en =
     (case en of (event, now) \<Rightarrow>
        if Type event = EV_KEY then
          if Value event = 0 \<or> Value event = 1 then
            [RLog Debug (if Value event = 0 then ''Released: %s (%d)'' else ''Pressed:  %s (%d)''),
             Send \<lparr>Code = EvCode event, IsPress = (Value event = 1), Time = now\<rparr>]
          else []
        else [])"

fun readKeyboard :: "read_result list \<Rightarrow> Device \<Rightarrow> reader_effect list \<times> Device" where
  "readKeyboard [] k = ([], k)"
| "readKeyboard (r # rs) k =
     (if state k \<noteq> StateOpen then ([], k)
      else
        (case r of
           ReadFails err \<Rightarrow> ([RLog Warn ''Failed to read keyboard: %v''], k\<lparr>state := StateNotOpen\<rparr>)
         | ReadEvents events \<Rightarrow>
             (case readKeyboard rs k of (es, k') \<Rightarrow> (concat (map forwardEvent events) @ es, k'))))"

text \<open>The events that a trace of the reader puts on the channel, in order.\<close>

fun sent :: "reader_effect list \<Rightarrow> Event list" where
  "sent [] = []"
| "sent (Send e # es) = e # sent es"
| "sent (_ # es) = sent es"

section \<open>An invariant of the layer stack\<close>

text \<open>
  The two stacks have the same length, and neither \<open>currentLayer\<close> nor a layer on
  \<open>toggleLayerPrevious\<close> is nil.
\<close>

definition stack_ok :: "globals \<Rightarrow> bool" where
  "stack_ok st \<longleftrightarrow>
     length (elems (toggleLayerKeys st)) = length (elems (toggleLayerPrevious st)) \<and>
     currentLayer st < length (layerStore st) \<and>
     set (elems (toggleLayerPrevious st)) \<subseteq> {..<length (layerStore st)}"

section \<open>Concrete configurations and inputs\<close>

definition press :: "keycode \<Rightarrow> KeyboardEvent" where
  "press c = \<lparr>code = c, isPress = True, holdKey = False\<rparr>"

definition release :: "keycode \<Rightarrow> KeyboardEvent" where
  "release c = \<lparr>code = c, isPress = False, holdKey = False\<rparr>"

definition mkConfig :: "layer_ptr list \<Rightarrow> Config" where
  "mkConfig ps =
     \<lparr>Layers = ps, BaseMouseSpeed = 750, StartMouseSpeed = 0, BaseScrollSpeed = 20,
      MouseAccelerationTime = 200, MouseDecelerationTime = 300,
      MouseAccelerationCurve = 2, MouseDecelerationCurve = 3\<rparr>"

text \<open>The globals before \<open>loadConfig\<close> has run: every variable has its zero value.\<close>

definition startState :: globals where
  "startState =
     \<lparr>config = mkConfig [], currentLayer = 0, toggleLayerKeys = None,
      toggleLayerPrevious = None, layerStore = [], arrayStore = [], configReads = 0,
      trace = []\<rparr>"

text \<open>
  Configuration A: layer L0 binds 58 to ToggleLayer L1; L1 binds 59 to ToggleLayer L2 and
  19 to ReloadConfig; L2 binds nothing. A second read of the file yields a configuration
  with the single layer M0; every later read fails.
\<close>

definition layerL0 :: Layer where
  "layerL0 = \<lparr>Name = ''L0'', Bindings = [(58, ToggleLayerBinding ''L1'')],
              WildcardBinding = NilBinding, PassThrough = False\<rparr>"

definition layerL1 :: Layer where
  "layerL1 = \<lparr>Name = ''L1'',
              Bindings = [(59, ToggleLayerBinding ''L2''), (19, ReloadConfigBinding)],
              WildcardBinding = NilBinding, PassThrough = False\<rparr>"

definition layerL2 :: Layer where
  "layerL2 = \<lparr>Name = ''L2'', Bindings = [],
              WildcardBinding = NilBinding, PassThrough = False\<rparr>"

definition layerM0 :: Layer where
  "layerM0 = \<lparr>Name = ''M0'', Bindings = [],
              WildcardBinding = NilBinding, PassThrough = True\<rparr>"

definition envA :: env where
  "envA =
     \<lparr>WildcardKey = 65535, keyAliasesReversed = (\<lambda>c. uint c), runCommand = (\<lambda>c. None),
      parseConfig =
        (\<lambda>n. if n = 0 then Inr (mkConfig [0, 1, 2], [layerL0, layerL1, layerL2], [])
             else if n = 1 then Inr (mkConfig [3], [layerM0], [])
             else Inl ''open config.yaml: no such file or directory'')\<rparr>"

definition loadedA :: globals where
  "loadedA =
     \<lparr>config = mkConfig [0, 1, 2], currentLayer = 0, toggleLayerKeys = None,
      toggleLayerPrevious = None, layerStore = [layerL0, layerL1, layerL2], arrayStore = [],
      configReads = 1, trace = [Log Debug ''Switching to initial layer %s'']\<rparr>"

text \<open>A device that has been opened, and a batch of events as one \<open>Read\<close> returns them:
  a scan code, a press of A, a synchronisation event, an autorepeat and the release.\<close>

definition openedDevice :: Device where
  "openedDevice =
     \<lparr>deviceName = ''/dev/input/event3'', device = Some 7, state = StateOpen,
      lastOpenError = []\<rparr>"

definition sampleBatch :: "(InputEvent \<times> timestamp) list" where
  "sampleBatch =
     [(\<lparr>Type = 4, EvCode = 4, Value = 458756\<rparr>, 100),
      (\<lparr>Type = 1, EvCode = 30, Value = 1\<rparr>, 101),
      (\<lparr>Type = 0, EvCode = 0, Value = 0\<rparr>, 102),
      (\<lparr>Type = 1, EvCode = 30, Value = 2\<rparr>, 350),
      (\<lparr>Type = 1, EvCode = 30, Value = 0\<rparr>, 420)]"

text \<open>Configuration A after press 58 and press 59, and after the release of 58 that follows.\<close>

definition toggledA :: globals where
  "toggledA =
     \<lparr>config = mkConfig [0, 1, 2], currentLayer = 2, toggleLayerKeys = Some [58, 59],
      toggleLayerPrevious = Some [0, 1], layerStore = [layerL0, layerL1, layerL2],
      arrayStore = [], configReads = 1,
      trace = [Log Debug ''Switching to initial layer %s'',
               Log Debug ''Executing %T: %+v'', Log Debug ''Switching to layer %v'',
               Log Debug ''Executing %T: %+v'', Log Debug ''Switching to layer %v'']\<rparr>"

definition poppedA :: globals where
  "poppedA =
     \<lparr>config = mkConfig [0, 1, 2], currentLayer = 0, toggleLayerKeys = Some [],
      toggleLayerPrevious = Some [], layerStore = [layerL0, layerL1, layerL2],
      arrayStore = [], configReads = 1,
      trace = [Log Debug ''Switching to initial layer %s'',
               Log Debug ''Executing %T: %+v'', Log Debug ''Switching to layer %v'',
               Log Debug ''Executing %T: %+v'', Log Debug ''Switching to layer %v'',
               Log Debug ''Switching to layer %v'', KeyboardOriginalKeyUp 58,
               MouseOriginalKeyUp 58, Log Debug ''Executing %T: %+v'']\<rparr>"

text \<open>Configuration A after press 58, press 19 (the file is read again, successfully) and
  release 58.\<close>

definition staleA :: globals where
  "staleA =
     \<lparr>config = mkConfig [3], currentLayer = 0, toggleLayerKeys = Some [],
      toggleLayerPrevious = Some [], layerStore = [layerL0, layerL1, layerL2, layerM0],
      arrayStore = [[58]], configReads = 2,
      trace = [Log Debug ''Switching to initial layer %s'',
               Log Debug ''Executing %T: %+v'', Log Debug ''Switching to layer %v'',
               Log Debug ''Executing %T: %+v'', Log Debug ''Switching to initial layer %s'',
               Log Debug ''Switching to layer %v'', KeyboardOriginalKeyUp 58,
               MouseOriginalKeyUp 58, Log Debug ''Executing %T: %+v'']\<rparr>"

text \<open>The same surroundings, except that the file cannot be parsed any more after the
  first read; and the globals at the moment the process then exits on press 19.\<close>

definition envB :: env where
  "envB =
     \<lparr>WildcardKey = 65535, keyAliasesReversed = (\<lambda>c. uint c), runCommand = (\<lambda>c. None),
      parseConfig =
        (\<lambda>n. if n = 0 then Inr (mkConfig [0, 1, 2], [layerL0, layerL1, layerL2], [])
             else Inl ''yaml: line 3: mapping values are not allowed in this context'')\<rparr>"

definition exitedB :: globals where
  "exitedB =
     \<lparr>config = mkConfig [0, 1, 2], currentLayer = 1, toggleLayerKeys = Some [58],
      toggleLayerPrevious = Some [0], layerStore = [layerL0, layerL1, layerL2],
      arrayStore = [], configReads = 2,
      trace = [Log Debug ''Switching to initial layer %s'',
               Log Debug ''Executing %T: %+v'', Log Debug ''Switching to layer %v'',
               Log Debug ''Executing %T: %+v'',
               Log Error ''Failed to read the config file: %v'', Log Error ''Exiting'']\<rparr>"

text \<open>
  Configuration W: the initial layer \<open>base\<close> passes unmapped keys through and binds 58 to
  ToggleLayer nav and 60 to Layer nav; the layer \<open>nav\<close> has a wildcard binding, the combo
  Ctrl (29) plus the wildcard, and binds two keys to layer names that do not exist.
\<close>

definition layerBase :: Layer where
  "layerBase =
     \<lparr>Name = ''base'',
      Bindings = [(58, ToggleLayerBinding ''nav''), (60, LayerBinding ''nav'')],
      WildcardBinding = NilBinding, PassThrough = True\<rparr>"

definition layerNav :: Layer where
  "layerNav =
     \<lparr>Name = ''nav'',
      Bindings = [(36, MoveBinding 0 1), (37, SpeedBinding 4),
                  (59, ToggleLayerBinding ''base''), (60, LayerBinding ''base''),
                  (61, LayerBinding ''nope''), (62, ToggleLayerBinding ''nope'')],
      WildcardBinding = KeyBinding 0, PassThrough = False\<rparr>"

definition envW :: env where
  "envW =
     \<lparr>WildcardKey = 65535, keyAliasesReversed = (\<lambda>c. uint c), runCommand = (\<lambda>c. None),
      parseConfig =
        (\<lambda>n. if n = 0 then Inr (mkConfig [0, 1], [layerBase, layerNav], [[29, 65535]])
             else Inl ''yaml: line 3: mapping values are not allowed in this context'')\<rparr>"

definition loadedW :: globals where
  "loadedW =
     \<lparr>config = mkConfig [0, 1], currentLayer = 0, toggleLayerKeys = None,
      toggleLayerPrevious = None, layerStore = [layerBase, layerNav],
      arrayStore = [[29, 65535]], configReads = 1,
      trace = [Log Debug ''Switching to initial layer %s'']\<rparr>"

text \<open>After press 58 (nav is toggled), and after press 60 instead (nav is the base layer).\<close>

definition toggledW :: globals where
  "toggledW =
     \<lparr>config = mkConfig [0, 1], currentLayer = 1, toggleLayerKeys = Some [58],
      toggleLayerPrevious = Some [0], layerStore = [layerBase, layerNav],
      arrayStore = [[29, 65535]], configReads = 1,
      trace = [Log Debug ''Switching to initial layer %s'',
               Log Debug ''Executing %T: %+v'', Log Debug ''Switching to layer %v'']\<rparr>"

definition navW :: globals where
  "navW =
     \<lparr>config = mkConfig [0, 1], currentLayer = 1, toggleLayerKeys = None,
      toggleLayerPrevious = None, layerStore = [layerBase, layerNav],
      arrayStore = [[29, 65535]], configReads = 1,
      trace = [Log Debug ''Switching to initial layer %s'',
               Log Debug ''Executing %T: %+v'', Log Debug ''Switching to layer %v'']\<rparr>"

text \<open>After press 58 and then press 61, which is bound to Layer nope.\<close>

definition clearedW :: globals where
  "clearedW =
     \<lparr>config = mkConfig [0, 1], currentLayer = 1, toggleLayerKeys = None,
      toggleLayerPrevious = None, layerStore = [layerBase, layerNav],
      arrayStore = [[29, 65535]], configReads = 1,
      trace = [Log Debug ''Switching to initial layer %s'',
               Log Debug ''Executing %T: %+v'', Log Debug ''Switching to layer %v'',
               Log Debug ''Executing %T: %+v'']\<rparr>"

section \<open>The keyboard reader: what is forwarded\<close>

lemma sent_append: "sent (xs @ ys) = sent xs @ sent ys"
  by (induction xs rule: sent.induct) auto

lemma sent_forwardEvent:
  "sent (forwardEvent (event, now)) =
     (if Type event = EV_KEY \<and> (Value event = 0 \<or> Value event = 1)
      then [\<lparr>Code = EvCode event, IsPress = (Value event = 1), Time = now\<rparr>] else [])"
  by (simp add: forwardEvent_def)

lemma sent_batch:
  "sent (concat (map forwardEvent events)) =
     map (\<lambda>(event, now). \<lparr>Code = EvCode event, IsPress = (Value event = 1), Time = now\<rparr>)
       (filter (\<lambda>(event, now). Type event = EV_KEY \<and> (Value event = 0 \<or> Value event = 1))
          events)"
  by (induction events) (auto simp: sent_append sent_forwardEvent split: if_splits)

text \<open>
  Claim C8. While the device stays open, the events that \<open>readKeyboard\<close> puts on the
  channel are, in order, exactly the events read whose type is \<open>EV_KEY\<close> and whose value
  is 0 or 1; each carries the code of the event read, \<open>IsPress\<close> true exactly when the
  value is 1, and the time read from the clock when it was handled. Every other event
  (autorepeat with value 2, events of another type) is dropped.
\<close>

theorem readKeyboard_forwards_key_events:
  "state k = StateOpen \<Longrightarrow>
   sent (fst (readKeyboard (map ReadEvents batches) k)) =
     map (\<lambda>(event, now). \<lparr>Code = EvCode event, IsPress = (Value event = 1), Time = now\<rparr>)
       (filter (\<lambda>(event, now). Type event = EV_KEY \<and> (Value event = 0 \<or> Value event = 1))
          (concat batches))"
  by (induction batches) (auto simp: sent_append sent_batch split: prod.splits)

theorem readKeyboard_forwards_key_events_witness:
  "state openedDevice = StateOpen \<and>
   sent (fst (readKeyboard (map ReadEvents [sampleBatch]) openedDevice)) =
     [\<lparr>Code = 30, IsPress = True, Time = 101\<rparr>, \<lparr>Code = 30, IsPress = False, Time = 420\<rparr>]"
  using readKeyboard_forwards_key_events [of openedDevice "[sampleBatch]"]
  by (simp add: openedDevice_def sampleBatch_def EV_KEY_def)

section \<open>The keyboard reader: a failure to open\<close>

text \<open>
  Whenever opening or grabbing fails, \<open>openDevice\<close> has set the state to
  \<open>StateOpenFailed\<close> before \<open>ReadLoop\<close> tests it, so the pass logs the failure at debug
  level, whatever the state was before.
\<close>

lemma readLoopPass_failure:
  "state k \<noteq> StateOpen \<Longrightarrow> r = OpenFails err \<or> r = GrabFails err \<Longrightarrow>
   readLoopPass r k =
     ([RLog Debug ''opening the keyboard device %v'', RLog Debug ''Failed to open %v: %v''],
      k\<lparr>state := StateOpenFailed, lastOpenError := err\<rparr>)"
  by (auto simp: readLoopPass_def openDevice_def)

lemma readLoopPass_never_warns: "RLog Warn m \<notin> set (fst (readLoopPass r k))"
  by (cases r) (auto simp: readLoopPass_def openDevice_def)

lemma ReadLoop_never_warns_of_open_failure:
  "RLog Warn ''Failed to open %v: %v'' \<notin> set (fst (ReadLoop ticks k))"
proof (induction ticks arbitrary: k)
  case Nil
  then show ?case by simp
next
  case (Cons t ticks)
  obtain failed r where t: "t = (failed, r)" by (cases t)
  obtain es0 k0 where f: "readFailure failed k = (es0, k0)" by (cases "readFailure failed k")
  obtain es1 k1 where p: "readLoopPass r k0 = (es1, k1)" by (cases "readLoopPass r k0")
  obtain es2 k2 where l: "ReadLoop ticks k1 = (es2, k2)" by (cases "ReadLoop ticks k1")
  from f have "RLog Warn ''Failed to open %v: %v'' \<notin> set es0"
    by (auto simp: readFailure_def split: if_splits)
  moreover from p readLoopPass_never_warns[of "''Failed to open %v: %v''" r k0]
  have "RLog Warn ''Failed to open %v: %v'' \<notin> set es1" by simp
  moreover from l Cons.IH[of k1] have "RLog Warn ''Failed to open %v: %v'' \<notin> set es2"
    by simp
  ultimately show ?case by (simp add: t f p l)
qed

text \<open>
  Claim C5. The first failure to open a device is said to be logged at warn level. At the
  first pass of \<open>ReadLoop\<close> on a new device whose open fails, the program logs the
  failure at debug level, and the warn branch is not taken.
\<close>

theorem ReadLoop_first_open_failure_logged_at_debug:
  "ReadLoop [(False, OpenFails ''no such file or directory'')]
            (NewKeyboardDevice ''/dev/input/event3'') =
     ([RLog Debug ''opening the keyboard device %v'', RLog Debug ''Failed to open %v: %v''],
      \<lparr>deviceName = ''/dev/input/event3'', device = None, state = StateOpenFailed,
       lastOpenError = ''no such file or directory''\<rparr>)"
  by (simp add: readLoopPass_def openDevice_def NewKeyboardDevice_def readFailure_def)

section \<open>The concrete states are reached by the program\<close>

lemmas run_defs =
  loadConfig_def readConfig_def exitError_def deref_def logf_def emit_def logExecuting_def
  handleKey_def resolveBinding_def escapeFallback_def lookupBinding_def releaseToggle_def
  informKeyUp_def append_slice_def elems_def array_literal_def KEY_ESC_def
  press_def release_def mkConfig_def Let_def

lemma loadedA_reached: "loadConfig envA startState = Inr loadedA"
  by (simp add: run_defs envA_def startState_def loadedA_def)

lemma loadedB_reached: "loadConfig envB startState = Inr loadedA"
  by (simp add: run_defs envB_def startState_def loadedA_def)

lemma toggledA_reached: "handleKeys envA [press 58, press 59] loadedA = Inr toggledA"
  by (simp add: run_defs loadedA_def toggledA_def layerL0_def layerL1_def layerL2_def)

lemma loadedW_reached: "loadConfig envW startState = Inr loadedW"
  by (simp add: run_defs envW_def startState_def loadedW_def)

lemma toggledW_reached: "handleKeys envW [press 58] loadedW = Inr toggledW"
  by (simp add: run_defs loadedW_def toggledW_def layerBase_def layerNav_def)

lemma navW_reached: "handleKeys envW [press 60] loadedW = Inr navW"
  by (simp add: run_defs loadedW_def navW_def layerBase_def layerNav_def)

section \<open>Release events\<close>

text \<open>
  On a release, \<open>executeBinding\<close> does nothing but log: every case that acts is guarded
  by \<open>event.isPress\<close>, and \<open>MultiBinding\<close> and \<open>TapHoldBinding\<close> only recurse.
\<close>

lemma executeBinding_release:
  "\<not> isPress ev \<Longrightarrow> \<exists>n. executeBinding E ev b st =
      Inr (st\<lparr>trace := trace st @ replicate n (Log Debug ''Executing %T: %+v'')\<rparr>)"
  "\<not> isPress ev \<Longrightarrow> \<exists>n. executeBindings E ev bs st =
      Inr (st\<lparr>trace := trace st @ replicate n (Log Debug ''Executing %T: %+v'')\<rparr>)"
proof (induction E ev b st and E ev bs st rule: executeBinding_executeBindings.induct)
  case (1 E ev st)
  have "st = st\<lparr>trace := trace st @ replicate 0 (Log Debug ''Executing %T: %+v'')\<rparr>"
    by simp
  then show ?case by (metis executeBindings.simps(1))
next
  case (2 E ev b bs st)
  then obtain n where n: "executeBinding E ev b st =
      Inr (st\<lparr>trace := trace st @ replicate n (Log Debug ''Executing %T: %+v'')\<rparr>)"
    by blast
  from 2 n obtain m where
    "executeBindings E ev bs
       (st\<lparr>trace := trace st @ replicate n (Log Debug ''Executing %T: %+v'')\<rparr>) =
     Inr (st\<lparr>trace := trace st @ replicate n (Log Debug ''Executing %T: %+v'') @
                         replicate m (Log Debug ''Executing %T: %+v'')\<rparr>)"
    by fastforce
  with n show ?case
    by (auto simp: replicate_add[symmetric] simp del: replicate_add intro!: exI[of _ "n + m"])
next
  case (3 E ev bs st)
  then obtain m where "executeBindings E ev bs (logExecuting st) =
      Inr ((logExecuting st)\<lparr>trace := trace (logExecuting st) @
                                 replicate m (Log Debug ''Executing %T: %+v'')\<rparr>)"
    by blast
  then show ?case
    by (auto simp: logExecuting_def logf_def replicate_app_Cons_same intro!: exI[of _ "Suc m"])
next
  case (4 E ev tap hold st)
  then obtain m where "executeBinding E ev (TapHoldBinding tap hold) st =
      Inr ((logExecuting st)\<lparr>trace := trace (logExecuting st) @
                                 replicate m (Log Debug ''Executing %T: %+v'')\<rparr>)"
    by (cases "holdKey ev") auto
  then show ?case
    by (auto simp: logExecuting_def logf_def replicate_app_Cons_same
             simp del: executeBinding.simps intro!: exI[of _ "Suc m"])
qed (auto simp: logExecuting_def logf_def Let_def intro: exI[of _ "Suc 0"])

lemma findKey_first:
  "i < length ks \<Longrightarrow> ks ! i = c \<Longrightarrow> c \<notin> set (take i ks) \<Longrightarrow> findKey c ks n = Some (n + i)"
proof (induction ks arbitrary: i n)
  case Nil
  then show ?case by simp
next
  case (Cons k ks)
  show ?case
  proof (cases i)
    case 0
    with Cons.prems show ?thesis by simp
  next
    case (Suc i')
    with Cons.prems have "k \<noteq> c" by auto
    moreover from Suc Cons.prems have "findKey c ks (Suc n) = Some (Suc n + i')"
      by (intro Cons.IH) auto
    ultimately show ?thesis using Suc by simp
  qed
qed

text \<open>Resolving the binding of a release touches neither the layer nor the stacks.\<close>

lemma resolveBinding_release:
  assumes "\<not> isPress ev" "currentLayer st < length (layerStore st)"
  shows "\<exists>b st1. resolveBinding ev st = Inr (b, st1) \<and>
           currentLayer st1 = currentLayer st \<and> toggleLayerKeys st1 = toggleLayerKeys st \<and>
           toggleLayerPrevious st1 = toggleLayerPrevious st \<and> layerStore st1 = layerStore st \<and>
           config st1 = config st \<and> trace st1 = trace st"
  using assms
  by (simp add: resolveBinding_def deref_def escapeFallback_def Let_def array_literal_def)

lemma releaseToggle_pop:
  assumes "\<not> isPress ev"
    and "i < length (elems (toggleLayerKeys st))"
    and "elems (toggleLayerKeys st) ! i = code ev"
    and "code ev \<notin> set (take i (elems (toggleLayerKeys st)))"
    and "length (elems (toggleLayerPrevious st)) = length (elems (toggleLayerKeys st))"
    and "elems (toggleLayerPrevious st) ! i < length (layerStore st)"
  shows "releaseToggle ev st =
     Inr (st\<lparr>currentLayer := elems (toggleLayerPrevious st) ! i,
              trace := trace st @ [Log Debug ''Switching to layer %v''],
              toggleLayerKeys := Some (take i (elems (toggleLayerKeys st))),
              toggleLayerPrevious := Some (take i (elems (toggleLayerPrevious st)))\<rparr>)"
proof -
  have "findKey (code ev) (elems (toggleLayerKeys st)) 0 = Some i"
    using findKey_first[OF assms(2,3,4), of 0] by simp
  with assms show ?thesis
    by (simp add: releaseToggle_def deref_def logf_def Let_def)
qed

lemma handleKey_release_pops:
  assumes "\<not> isPress ev"
    and "i < length (elems (toggleLayerKeys st))"
    and "elems (toggleLayerKeys st) ! i = code ev"
    and "code ev \<notin> set (take i (elems (toggleLayerKeys st)))"
    and "length (elems (toggleLayerPrevious st)) = length (elems (toggleLayerKeys st))"
    and "currentLayer st < length (layerStore st)"
    and "elems (toggleLayerPrevious st) ! i < length (layerStore st)"
  shows "\<exists>st'. handleKey E ev st = Inr st' \<and>
           currentLayer st' = elems (toggleLayerPrevious st) ! i \<and>
           toggleLayerKeys st' = Some (take i (elems (toggleLayerKeys st))) \<and>
           toggleLayerPrevious st' = Some (take i (elems (toggleLayerPrevious st)))"
proof -
  from resolveBinding_release[OF assms(1) assms(6)]
  obtain b st1 where rb: "resolveBinding ev st = Inr (b, st1)"
    and same: "toggleLayerKeys st1 = toggleLayerKeys st"
      "toggleLayerPrevious st1 = toggleLayerPrevious st" "layerStore st1 = layerStore st"
    by blast
  let ?st2 = "st1\<lparr>currentLayer := elems (toggleLayerPrevious st1) ! i,
              trace := trace st1 @ [Log Debug ''Switching to layer %v''],
              toggleLayerKeys := Some (take i (elems (toggleLayerKeys st1))),
              toggleLayerPrevious := Some (take i (elems (toggleLayerPrevious st1)))\<rparr>"
  have rt: "releaseToggle ev st1 = Inr ?st2"
    using assms same by (intro releaseToggle_pop) simp_all
  from executeBinding_release(1)[OF assms(1), of E b "informKeyUp ev ?st2"]
  obtain n where ex: "executeBinding E ev b (informKeyUp ev ?st2) =
      Inr ((informKeyUp ev ?st2)\<lparr>trace := trace (informKeyUp ev ?st2) @
                                     replicate n (Log Debug ''Executing %T: %+v'')\<rparr>)"
    by blast
  have "handleKey E ev st =
      Inr ((informKeyUp ev ?st2)\<lparr>trace := trace (informKeyUp ev ?st2) @
                                     replicate n (Log Debug ''Executing %T: %+v'')\<rparr>)"
    unfolding handleKey_def by (simp only: rb rt ex sum.case prod.case)
  then show ?thesis by (simp add: informKeyUp_def emit_def same)
qed

lemma scenario_toggle_cascade:
  "handleKeys envA [press 58, press 59, release 58] loadedA = Inr poppedA"
  by (simp add: run_defs loadedA_def poppedA_def layerL0_def layerL1_def layerL2_def)

text \<open>
  Claim C4. Let a release event be given whose code occurs in \<open>toggleLayerKeys\<close>, first at
  index \<open>i\<close>, in a state where the two stacks have the same length and the layer
  pointers involved are not nil. Then \<open>handleKey\<close> returns normally, \<open>currentLayer\<close> is
  \<open>toggleLayerPrevious[i]\<close> and both stacks are cut to length \<open>i\<close>, which removes every
  layer toggled after that key as well. In particular, with L0 binding 58 to ToggleLayer
  L1 and L1 binding 59 to ToggleLayer L2, after press 58, press 59, release 58 the current
  layer is L0 again, where the run started, and both stacks are empty.
\<close>

theorem release_restores_layer_and_truncates_stacks:
  "(\<not> isPress ev \<and>
    i < length (elems (toggleLayerKeys st)) \<and>
    elems (toggleLayerKeys st) ! i = code ev \<and>
    code ev \<notin> set (take i (elems (toggleLayerKeys st))) \<and>
    length (elems (toggleLayerPrevious st)) = length (elems (toggleLayerKeys st)) \<and>
    currentLayer st < length (layerStore st) \<and>
    elems (toggleLayerPrevious st) ! i < length (layerStore st)
    \<longrightarrow> (\<exists>st'. handleKey E ev st = Inr st' \<and>
           currentLayer st' = elems (toggleLayerPrevious st) ! i \<and>
           toggleLayerKeys st' = Some (take i (elems (toggleLayerKeys st))) \<and>
           toggleLayerPrevious st' = Some (take i (elems (toggleLayerPrevious st))))) \<and>
   (loadConfig envA startState = Inr loadedA \<and>
    handleKeys envA [press 58, press 59, release 58] loadedA = Inr poppedA \<and>
    currentLayer poppedA = currentLayer loadedA \<and>
    Name (layerStore poppedA ! currentLayer poppedA) = ''L0'' \<and>
    elems (toggleLayerKeys poppedA) = [] \<and> elems (toggleLayerPrevious poppedA) = [])"
proof (intro conjI impI)
  assume "\<not> isPress ev \<and>
    i < length (elems (toggleLayerKeys st)) \<and>
    elems (toggleLayerKeys st) ! i = code ev \<and>
    code ev \<notin> set (take i (elems (toggleLayerKeys st))) \<and>
    length (elems (toggleLayerPrevious st)) = length (elems (toggleLayerKeys st)) \<and>
    currentLayer st < length (layerStore st) \<and>
    elems (toggleLayerPrevious st) ! i < length (layerStore st)"
  then show "\<exists>st'. handleKey E ev st = Inr st' \<and>
           currentLayer st' = elems (toggleLayerPrevious st) ! i \<and>
           toggleLayerKeys st' = Some (take i (elems (toggleLayerKeys st))) \<and>
           toggleLayerPrevious st' = Some (take i (elems (toggleLayerPrevious st)))"
    by (intro handleKey_release_pops) simp_all
next
  show "loadConfig envA startState = Inr loadedA"
    by (rule loadedA_reached)
next
  show "handleKeys envA [press 58, press 59, release 58] loadedA = Inr poppedA"
    by (rule scenario_toggle_cascade)
qed (simp_all add: poppedA_def loadedA_def layerL0_def elems_def)

theorem release_restores_layer_and_truncates_stacks_witness:
  "\<not> isPress (release 58) \<and>
   0 < length (elems (toggleLayerKeys toggledA)) \<and>
   elems (toggleLayerKeys toggledA) ! 0 = code (release 58) \<and>
   code (release 58) \<notin> set (take 0 (elems (toggleLayerKeys toggledA))) \<and>
   length (elems (toggleLayerPrevious toggledA)) = length (elems (toggleLayerKeys toggledA)) \<and>
   currentLayer toggledA < length (layerStore toggledA) \<and>
   elems (toggleLayerPrevious toggledA) ! 0 < length (layerStore toggledA) \<and>
   handleKeys envA [press 58, press 59] loadedA = Inr toggledA \<and>
   (\<exists>st'. handleKey envA (release 58) toggledA = Inr st' \<and>
          currentLayer st' = 0 \<and> toggleLayerKeys st' = Some [] \<and>
          toggleLayerPrevious st' = Some [])"
proof -
  have h: "\<not> isPress (release 58) \<and>
     0 < length (elems (toggleLayerKeys toggledA)) \<and>
     elems (toggleLayerKeys toggledA) ! 0 = code (release 58) \<and>
     code (release 58) \<notin> set (take 0 (elems (toggleLayerKeys toggledA))) \<and>
     length (elems (toggleLayerPrevious toggledA)) = length (elems (toggleLayerKeys toggledA)) \<and>
     currentLayer toggledA < length (layerStore toggledA) \<and>
     elems (toggleLayerPrevious toggledA) ! 0 < length (layerStore toggledA)"
    by (simp add: toggledA_def release_def elems_def)
  have v: "elems (toggleLayerPrevious toggledA) ! 0 = 0"
    by (simp add: toggledA_def elems_def)
  from h release_restores_layer_and_truncates_stacks [of "release 58" 0 toggledA envA]
  have "\<exists>st'. handleKey envA (release 58) toggledA = Inr st' \<and>
           currentLayer st' = elems (toggleLayerPrevious toggledA) ! 0 \<and>
           toggleLayerKeys st' = Some (take 0 (elems (toggleLayerKeys toggledA))) \<and>
           toggleLayerPrevious st' = Some (take 0 (elems (toggleLayerPrevious toggledA)))"
    by blast
  then have "\<exists>st'. handleKey envA (release 58) toggledA = Inr st' \<and>
          currentLayer st' = 0 \<and> toggleLayerKeys st' = Some [] \<and>
          toggleLayerPrevious st' = Some []"
    by (simp add: v)
  with h toggledA_reached show ?thesis by blast
qed

section \<open>Reloading the configuration\<close>

text \<open>
  Claim C2. The claim says that a failed reload is logged and leaves the old configuration
  and the running process in place. In configuration A with a file that has become
  unreadable, press 58 followed by press 19 (bound to ReloadConfig) ends the process with
  exit status 1 at the press of 19: the release of 58 that follows is never handled.
\<close>

theorem reload_failure_exits_counterexample:
  "handleKeys envB [press 58, press 19, release 58] loadedA = Inl (OsExit 1 exitedB)"
  by (simp add: run_defs envB_def loadedA_def exitedB_def layerL0_def layerL1_def layerL2_def)

text \<open>
  Claim C2, amended. When a ReloadConfig binding is executed on a press and reading the
  configuration file fails, \<open>loadConfig\<close> calls \<open>exitError\<close>: the failure is logged at
  error level, followed by the message \<open>Exiting\<close>, and the process ends with exit status
  1; no further event is handled.
\<close>

theorem reload_failure_logs_and_exits:
  "isPress ev \<and> parseConfig E (configReads st) = Inl err \<longrightarrow>
   executeBinding E ev ReloadConfigBinding st =
     Inl (OsExit 1
       (st\<lparr>configReads := Suc (configReads st),
           trace := trace st @ [Log Debug ''Executing %T: %+v'',
                                Log Error ''Failed to read the config file: %v'',
                                Log Error ''Exiting'']\<rparr>))"
  by (simp add: loadConfig_def readConfig_def exitError_def logExecuting_def logf_def)

theorem reload_failure_logs_and_exits_witness:
  "isPress (press 19) \<and>
   parseConfig envB (configReads loadedA) =
     Inl ''yaml: line 3: mapping values are not allowed in this context'' \<and>
   executeBinding envB (press 19) ReloadConfigBinding loadedA =
     Inl (OsExit 1
       (loadedA\<lparr>configReads := Suc (configReads loadedA),
           trace := trace loadedA @ [Log Debug ''Executing %T: %+v'',
                                Log Error ''Failed to read the config file: %v'',
                                Log Error ''Exiting'']\<rparr>))"
proof -
  have h: "isPress (press 19) \<and>
     parseConfig envB (configReads loadedA) =
       Inl ''yaml: line 3: mapping values are not allowed in this context''"
    by (simp add: press_def envB_def loadedA_def)
  with reload_failure_logs_and_exits
         [of "press 19" envB loadedA
             "''yaml: line 3: mapping values are not allowed in this context''"]
  show ?thesis by blast
qed

text \<open>A failed reload also ends a run of events: nothing after it is handled.\<close>

lemma handleKeys_stops_at_error:
  "handleKey E ev st = Inl e \<Longrightarrow> handleKeys E (ev # evs) st = Inl e"
  by simp

text \<open>
  Claim C1. The claim says that \<open>currentLayer\<close> is a member of \<open>config.Layers\<close> in every
  reachable state, also after a ReloadConfig press followed by the release of a
  ToggleLayer key that was pressed before. In configuration A, after press 58 (ToggleLayer
  L1), press 19 (ReloadConfig, the file now holding the single layer M0) and release 58,
  \<open>currentLayer\<close> is the layer L0 of the configuration that was replaced, taken from
  \<open>toggleLayerPrevious\<close>, and it is not among the layers of the configuration in force.
\<close>

theorem reload_then_toggle_release_leaves_stale_layer:
  "loadConfig envA startState = Inr loadedA \<and>
   handleKeys envA [press 58, press 19, release 58] loadedA = Inr staleA \<and>
   currentLayer staleA = 0 \<and>
   Layers (config staleA) = [3] \<and>
   currentLayer staleA \<notin> set (Layers (config staleA)) \<and>
   Name (layerStore staleA ! currentLayer staleA) = ''L0'' \<and>
   map (\<lambda>p. Name (layerStore staleA ! p)) (Layers (config staleA)) = [''M0'']"
proof (intro conjI)
  show "loadConfig envA startState = Inr loadedA"
    by (rule loadedA_reached)
next
  show "handleKeys envA [press 58, press 19, release 58] loadedA = Inr staleA"
    by (simp add: run_defs envA_def loadedA_def staleA_def
          layerL0_def layerL1_def layerL2_def layerM0_def)
qed (simp_all add: staleA_def mkConfig_def layerL0_def layerM0_def)

section \<open>Resolving the binding of an event\<close>

text \<open>
  Claim C3. The claim says that the Escape fallback is used only when exact binding,
  wildcard and pass-through have all yielded nothing, so that a press of an unmapped
  Escape on a layer with a wildcard binding resolves to the wildcard. In configuration W
  on the layer nav (reached by press 60), which has a wildcard binding and no binding for
  Escape, a press of Escape resolves to \<open>LayerBinding ''base''\<close>.
\<close>

theorem escape_fallback_precedes_wildcard_counterexample:
  "handleKeys envW [press 60] loadedW = Inr navW \<and>
   currentLayer navW \<noteq> hd (Layers (config navW)) \<and>
   lookupBinding (Bindings (layerStore navW ! currentLayer navW)) KEY_ESC = NilBinding \<and>
   WildcardBinding (layerStore navW ! currentLayer navW) = KeyBinding 0 \<and>
   resolveBinding (press KEY_ESC) navW = Inr (LayerBinding ''base'', navW)"
proof (intro conjI)
  show "handleKeys envW [press 60] loadedW = Inr navW"
    by (rule navW_reached)
qed (simp_all add: run_defs navW_def layerBase_def layerNav_def)

text \<open>
  Claim C3, amended. The binding of an event is the exact binding of its code on the
  current layer; failing that, if the event is a press of Escape and the current layer is
  not the initial layer, a synthesized \<open>Layer\<close> binding to the initial layer; failing
  that, the wildcard binding of the layer; failing that, if the layer passes through, a
  synthesized \<open>Key\<close> binding whose combo is the code of the event; otherwise nil. So on a
  layer other than the initial one that has a wildcard binding, a press of an unmapped
  Escape resolves to \<open>Layer(initial)\<close>, not to the wildcard.
\<close>

theorem resolveBinding_precedence:
  "currentLayer st < length (layerStore st) \<and>
   Layers (config st) = p0 # ps \<and> p0 < length (layerStore st) \<longrightarrow>
   resolveBinding ev st =
     (let cl = layerStore st ! currentLayer st;
          exact = lookupBinding (Bindings cl) (code ev)
      in if exact \<noteq> NilBinding then Inr (exact, st)
         else if code ev = KEY_ESC \<and> isPress ev \<and> currentLayer st \<noteq> p0
           then Inr (LayerBinding (Name (layerStore st ! p0)), st)
         else if WildcardBinding cl \<noteq> NilBinding then Inr (WildcardBinding cl, st)
         else if PassThrough cl
           then Inr (KeyBinding (length (arrayStore st)),
                     st\<lparr>arrayStore := arrayStore st @ [[code ev]]\<rparr>)
         else Inr (NilBinding, st))"
  by (auto simp: resolveBinding_def escapeFallback_def deref_def array_literal_def Let_def)

theorem resolveBinding_precedence_witness:
  "currentLayer navW < length (layerStore navW) \<and>
   Layers (config navW) = 0 # [1] \<and> 0 < length (layerStore navW) \<and>
   resolveBinding (press KEY_ESC) navW = Inr (LayerBinding ''base'', navW) \<and>
   resolveBinding (press 30) navW = Inr (KeyBinding 0, navW) \<and>
   resolveBinding (press 60) navW = Inr (LayerBinding ''base'', navW)"
proof -
  have h: "currentLayer navW < length (layerStore navW) \<and>
     Layers (config navW) = 0 # [1] \<and> 0 < length (layerStore navW)"
    by (simp add: navW_def mkConfig_def)
  have v: "layerStore navW ! Suc 0 = layerNav" "layerStore navW ! 0 = layerBase"
    "currentLayer navW = Suc 0"
    by (simp_all add: navW_def)
  have i1: "resolveBinding (press KEY_ESC) navW =
     (let cl = layerStore navW ! currentLayer navW;
          exact = lookupBinding (Bindings cl) (code (press KEY_ESC))
      in if exact \<noteq> NilBinding then Inr (exact, navW)
         else if code (press KEY_ESC) = KEY_ESC \<and> isPress (press KEY_ESC) \<and> currentLayer navW \<noteq> 0
           then Inr (LayerBinding (Name (layerStore navW ! 0)), navW)
         else if WildcardBinding cl \<noteq> NilBinding then Inr (WildcardBinding cl, navW)
         else if PassThrough cl
           then Inr (KeyBinding (length (arrayStore navW)),
                     navW\<lparr>arrayStore := arrayStore navW @ [[code (press KEY_ESC)]]\<rparr>)
         else Inr (NilBinding, navW))"
    using h resolveBinding_precedence [of navW 0 "[1]" "press KEY_ESC"] by blast
  have i2: "resolveBinding (press 30) navW =
     (let cl = layerStore navW ! currentLayer navW;
          exact = lookupBinding (Bindings cl) (code (press 30))
      in if exact \<noteq> NilBinding then Inr (exact, navW)
         else if code (press 30) = KEY_ESC \<and> isPress (press 30) \<and> currentLayer navW \<noteq> 0
           then Inr (LayerBinding (Name (layerStore navW ! 0)), navW)
         else if WildcardBinding cl \<noteq> NilBinding then Inr (WildcardBinding cl, navW)
         else if PassThrough cl
           then Inr (KeyBinding (length (arrayStore navW)),
                     navW\<lparr>arrayStore := arrayStore navW @ [[code (press 30)]]\<rparr>)
         else Inr (NilBinding, navW))"
    using h resolveBinding_precedence [of navW 0 "[1]" "press 30"] by blast
  have i3: "resolveBinding (press 60) navW =
     (let cl = layerStore navW ! currentLayer navW;
          exact = lookupBinding (Bindings cl) (code (press 60))
      in if exact \<noteq> NilBinding then Inr (exact, navW)
         else if code (press 60) = KEY_ESC \<and> isPress (press 60) \<and> currentLayer navW \<noteq> 0
           then Inr (LayerBinding (Name (layerStore navW ! 0)), navW)
         else if WildcardBinding cl \<noteq> NilBinding then Inr (WildcardBinding cl, navW)
         else if PassThrough cl
           then Inr (KeyBinding (length (arrayStore navW)),
                     navW\<lparr>arrayStore := arrayStore navW @ [[code (press 60)]]\<rparr>)
         else Inr (NilBinding, navW))"
    using h resolveBinding_precedence [of navW 0 "[1]" "press 60"] by blast
  have "resolveBinding (press KEY_ESC) navW = Inr (LayerBinding ''base'', navW)"
    by (subst i1) (simp add: v layerNav_def layerBase_def lookupBinding_def press_def KEY_ESC_def Let_def)
  moreover have "resolveBinding (press 30) navW = Inr (KeyBinding 0, navW)"
    by (subst i2) (simp add: v layerNav_def layerBase_def lookupBinding_def press_def KEY_ESC_def Let_def)
  moreover have "resolveBinding (press 60) navW = Inr (LayerBinding ''base'', navW)"
    by (subst i3) (simp add: v layerNav_def layerBase_def lookupBinding_def press_def KEY_ESC_def Let_def)
  ultimately show ?thesis using h by blast
qed

section \<open>Layer and ToggleLayer bindings\<close>

lemma findLayer_total:
  "set ps \<subseteq> {..<length ls} \<Longrightarrow> \<exists>r. findLayer ls ps n = Inr r"
  by (induction ps) (auto simp: deref_def)

lemma findLayer_unknown:
  "set ps \<subseteq> {..<length ls} \<Longrightarrow> n \<notin> set (map (\<lambda>p. Name (ls ! p)) ps) \<Longrightarrow>
   findLayer ls ps n = Inr None"
  by (induction ps) (auto simp: deref_def)

text \<open>
  Claim C6. The claim says that a \<open>Layer\<close> binding with an unknown layer name leaves
  \<open>currentLayer\<close> and both stacks unchanged. In configuration W, after press 58 has
  toggled the layer nav (stacks \<open>[58]\<close> and \<open>[base]\<close>), a press of 61, bound to Layer nope,
  sets both stacks to nil although no layer is called nope; \<open>currentLayer\<close> stays nav.
\<close>

theorem unknown_layer_clears_stack_counterexample:
  "handleKeys envW [press 58] loadedW = Inr toggledW \<and>
   lookupBinding (Bindings (layerStore toggledW ! currentLayer toggledW)) 61 =
     LayerBinding ''nope'' \<and>
   ''nope'' \<notin> set (map (\<lambda>p. Name (layerStore toggledW ! p)) (Layers (config toggledW))) \<and>
   toggleLayerKeys toggledW = Some [58] \<and> toggleLayerPrevious toggledW = Some [0] \<and>
   handleKey envW (press 61) toggledW = Inr clearedW \<and>
   toggleLayerKeys clearedW = None \<and> toggleLayerPrevious clearedW = None \<and>
   currentLayer clearedW = currentLayer toggledW"
proof (intro conjI)
  show "handleKeys envW [press 58] loadedW = Inr toggledW"
    by (rule toggledW_reached)
next
  show "handleKey envW (press 61) toggledW = Inr clearedW"
    by (simp add: run_defs toggledW_def clearedW_def layerBase_def layerNav_def)
qed (simp_all add: run_defs toggledW_def clearedW_def layerBase_def layerNav_def)

text \<open>
  Claim C6, amended. Let the name \<open>n\<close> match no layer of \<open>config.Layers\<close>. Executing a
  \<open>ToggleLayer\<close> binding to \<open>n\<close> changes nothing but the log: \<open>currentLayer\<close> and both
  stacks are unchanged. Executing a \<open>Layer\<close> binding to \<open>n\<close> leaves \<open>currentLayer\<close>
  unchanged, and changes nothing on a release; on a press it sets both stacks to nil
  when \<open>toggleLayerPrevious\<close> is not nil. A binding of a variant that \<open>executeBinding\<close>
  does not name (nil, Speed, Scroll, Move, any other type) changes nothing but the log.
\<close>

theorem unknown_layer_name_and_unknown_variants:
  "set (Layers (config st)) \<subseteq> {..<length (layerStore st)} \<and>
   n \<notin> set (map (\<lambda>p. Name (layerStore st ! p)) (Layers (config st))) \<longrightarrow>
   executeBinding E ev (ToggleLayerBinding n) st =
     Inr (st\<lparr>trace := trace st @ [Log Debug ''Executing %T: %+v'']\<rparr>) \<and>
   executeBinding E ev (LayerBinding n) st =
     Inr (if isPress ev \<and> toggleLayerPrevious st \<noteq> None
          then st\<lparr>trace := trace st @ [Log Debug ''Executing %T: %+v''],
                  toggleLayerKeys := None, toggleLayerPrevious := None\<rparr>
          else st\<lparr>trace := trace st @ [Log Debug ''Executing %T: %+v'']\<rparr>) \<and>
   executeBinding E ev NilBinding st =
     Inr (st\<lparr>trace := trace st @ [Log Debug ''Executing %T: %+v'']\<rparr>) \<and>
   executeBinding E ev (SpeedBinding f) st =
     Inr (st\<lparr>trace := trace st @ [Log Debug ''Executing %T: %+v'']\<rparr>) \<and>
   executeBinding E ev (ScrollBinding x y) st =
     Inr (st\<lparr>trace := trace st @ [Log Debug ''Executing %T: %+v'']\<rparr>) \<and>
   executeBinding E ev (MoveBinding x y) st =
     Inr (st\<lparr>trace := trace st @ [Log Debug ''Executing %T: %+v'']\<rparr>) \<and>
   executeBinding E ev OtherBinding st =
     Inr (st\<lparr>trace := trace st @ [Log Debug ''Executing %T: %+v'']\<rparr>)"
proof (intro impI)
  assume h: "set (Layers (config st)) \<subseteq> {..<length (layerStore st)} \<and>
   n \<notin> set (map (\<lambda>p. Name (layerStore st ! p)) (Layers (config st)))"
  then have f: "findLayer (layerStore st) (Layers (config st)) n = Inr None"
    by (intro findLayer_unknown) simp_all
  have t: "executeBinding E ev (ToggleLayerBinding n) st =
     Inr (st\<lparr>trace := trace st @ [Log Debug ''Executing %T: %+v'']\<rparr>)"
    using f by (simp add: logExecuting_def logf_def Let_def)
  have l: "executeBinding E ev (LayerBinding n) st =
     Inr (if isPress ev \<and> toggleLayerPrevious st \<noteq> None
          then st\<lparr>trace := trace st @ [Log Debug ''Executing %T: %+v''],
                  toggleLayerKeys := None, toggleLayerPrevious := None\<rparr>
          else st\<lparr>trace := trace st @ [Log Debug ''Executing %T: %+v'']\<rparr>)"
    using f by (simp add: logExecuting_def logf_def Let_def)
  show "executeBinding E ev (ToggleLayerBinding n) st =
     Inr (st\<lparr>trace := trace st @ [Log Debug ''Executing %T: %+v'']\<rparr>) \<and>
   executeBinding E ev (LayerBinding n) st =
     Inr (if isPress ev \<and> toggleLayerPrevious st \<noteq> None
          then st\<lparr>trace := trace st @ [Log Debug ''Executing %T: %+v''],
                  toggleLayerKeys := None, toggleLayerPrevious := None\<rparr>
          else st\<lparr>trace := trace st @ [Log Debug ''Executing %T: %+v'']\<rparr>) \<and>
   executeBinding E ev NilBinding st =
     Inr (st\<lparr>trace := trace st @ [Log Debug ''Executing %T: %+v'']\<rparr>) \<and>
   executeBinding E ev (SpeedBinding f) st =
     Inr (st\<lparr>trace := trace st @ [Log Debug ''Executing %T: %+v'']\<rparr>) \<and>
   executeBinding E ev (ScrollBinding x y) st =
     Inr (st\<lparr>trace := trace st @ [Log Debug ''Executing %T: %+v'']\<rparr>) \<and>
   executeBinding E ev (MoveBinding x y) st =
     Inr (st\<lparr>trace := trace st @ [Log Debug ''Executing %T: %+v'']\<rparr>) \<and>
   executeBinding E ev OtherBinding st =
     Inr (st\<lparr>trace := trace st @ [Log Debug ''Executing %T: %+v'']\<rparr>)"
    by (simp only: t l) (simp add: logExecuting_def logf_def)
qed

theorem unknown_layer_name_and_unknown_variants_witness:
  "set (Layers (config toggledW)) \<subseteq> {..<length (layerStore toggledW)} \<and>
   ''nope'' \<notin> set (map (\<lambda>p. Name (layerStore toggledW ! p)) (Layers (config toggledW))) \<and>
   executeBinding envW (press 62) (ToggleLayerBinding ''nope'') toggledW =
     Inr (toggledW\<lparr>trace := trace toggledW @ [Log Debug ''Executing %T: %+v'']\<rparr>) \<and>
   executeBinding envW (press 61) (LayerBinding ''nope'') toggledW =
     Inr (toggledW\<lparr>trace := trace toggledW @ [Log Debug ''Executing %T: %+v''],
                   toggleLayerKeys := None, toggleLayerPrevious := None\<rparr>) \<and>
   executeBinding envW (release 61) (LayerBinding ''nope'') toggledW =
     Inr (toggledW\<lparr>trace := trace toggledW @ [Log Debug ''Executing %T: %+v'']\<rparr>)"
proof -
  have h: "set (Layers (config toggledW)) \<subseteq> {..<length (layerStore toggledW)} \<and>
     ''nope'' \<notin> set (map (\<lambda>p. Name (layerStore toggledW ! p)) (Layers (config toggledW)))"
    by (simp add: toggledW_def mkConfig_def layerBase_def layerNav_def)
  have v: "isPress (press 61)" "\<not> isPress (release 61)" "toggleLayerPrevious toggledW \<noteq> None"
    by (simp_all add: press_def release_def toggledW_def)
  have "executeBinding envW (press 62) (ToggleLayerBinding ''nope'') toggledW =
     Inr (toggledW\<lparr>trace := trace toggledW @ [Log Debug ''Executing %T: %+v'']\<rparr>)"
    using h unknown_layer_name_and_unknown_variants [of toggledW "''nope''" envW "press 62"]
    by blast
  moreover have "executeBinding envW (press 61) (LayerBinding ''nope'') toggledW =
     Inr (if isPress (press 61) \<and> toggleLayerPrevious toggledW \<noteq> None
          then toggledW\<lparr>trace := trace toggledW @ [Log Debug ''Executing %T: %+v''],
                  toggleLayerKeys := None, toggleLayerPrevious := None\<rparr>
          else toggledW\<lparr>trace := trace toggledW @ [Log Debug ''Executing %T: %+v'']\<rparr>)"
    using h unknown_layer_name_and_unknown_variants [of toggledW "''nope''" envW "press 61"]
    by blast
  then have "executeBinding envW (press 61) (LayerBinding ''nope'') toggledW =
     Inr (toggledW\<lparr>trace := trace toggledW @ [Log Debug ''Executing %T: %+v''],
                   toggleLayerKeys := None, toggleLayerPrevious := None\<rparr>)"
    by (simp only: v simp_thms if_True)
  moreover have "executeBinding envW (release 61) (LayerBinding ''nope'') toggledW =
     Inr (if isPress (release 61) \<and> toggleLayerPrevious toggledW \<noteq> None
          then toggledW\<lparr>trace := trace toggledW @ [Log Debug ''Executing %T: %+v''],
                  toggleLayerKeys := None, toggleLayerPrevious := None\<rparr>
          else toggledW\<lparr>trace := trace toggledW @ [Log Debug ''Executing %T: %+v'']\<rparr>)"
    using h unknown_layer_name_and_unknown_variants [of toggledW "''nope''" envW "release 61"]
    by blast
  then have "executeBinding envW (release 61) (LayerBinding ''nope'') toggledW =
     Inr (toggledW\<lparr>trace := trace toggledW @ [Log Debug ''Executing %T: %+v'']\<rparr>)"
    by (simp only: v simp_thms if_False)
  ultimately show ?thesis using h by blast
qed

section \<open>A Layer binding drops the momentary stack\<close>

lemma executeBinding_Layer_press:
  assumes "isPress ev"
    and "length (elems (toggleLayerKeys st)) = length (elems (toggleLayerPrevious st))"
    and "set (Layers (config st)) \<subseteq> {..<length (layerStore st)}"
  shows "\<exists>st1. executeBinding E ev (LayerBinding n) st = Inr st1 \<and>
           elems (toggleLayerKeys st1) = [] \<and> elems (toggleLayerPrevious st1) = [] \<and>
           layerStore st1 = layerStore st \<and> config st1 = config st \<and>
           (\<forall>p. findLayer (layerStore st) (Layers (config st)) n = Inr (Some p)
                \<longrightarrow> currentLayer st1 = p)"
proof -
  from findLayer_total[OF assms(3)] obtain r where
    r: "findLayer (layerStore st) (Layers (config st)) n = Inr r"
    by blast
  show ?thesis
  proof (cases "toggleLayerPrevious st")
    case None
    with assms(2) have "elems (toggleLayerKeys st) = []"
      by (simp add: elems_def)
    with None r assms(1) show ?thesis
      by (cases r) (simp_all add: logExecuting_def logf_def Let_def elems_def)
  next
    case (Some ps)
    with r assms(1) show ?thesis
      by (cases r) (simp_all add: logExecuting_def logf_def Let_def elems_def)
  qed
qed

lemma executeBinding_ToggleLayer_press:
  assumes "isPress ev"
    and "findLayer (layerStore st) (Layers (config st)) n = Inr (Some p)"
  shows "executeBinding E ev (ToggleLayerBinding n) st =
     Inr (st\<lparr>trace := trace st @ [Log Debug ''Executing %T: %+v'',
                                    Log Debug ''Switching to layer %v''],
             toggleLayerKeys := Some (elems (toggleLayerKeys st) @ [code ev]),
             toggleLayerPrevious := Some (elems (toggleLayerPrevious st) @ [currentLayer st]),
             currentLayer := p\<rparr>)"
  using assms by (simp add: logExecuting_def logf_def Let_def append_slice_def)

text \<open>
  Claim C7. In a state where the two stacks have the same length and no pointer of
  \<open>config.Layers\<close> is nil, executing a \<open>Layer\<close> binding on a press returns with both
  stacks empty, whether or not the layer is found, and with \<open>currentLayer\<close> the layer of
  that name if there is one; a \<open>ToggleLayer\<close> press executed in the resulting state, for
  a layer that exists, leaves exactly its own key and the layer it came from on the
  stacks. On a release a \<open>Layer\<close> binding changes nothing but the log.
\<close>

theorem layer_press_empties_stack:
  "(isPress ev \<and>
    length (elems (toggleLayerKeys st)) = length (elems (toggleLayerPrevious st)) \<and>
    set (Layers (config st)) \<subseteq> {..<length (layerStore st)} \<longrightarrow>
    (\<exists>st1. executeBinding E ev (LayerBinding n) st = Inr st1 \<and>
        elems (toggleLayerKeys st1) = [] \<and> elems (toggleLayerPrevious st1) = [] \<and>
        layerStore st1 = layerStore st \<and> config st1 = config st \<and>
        (\<forall>p. findLayer (layerStore st) (Layers (config st)) n = Inr (Some p)
              \<longrightarrow> currentLayer st1 = p) \<and>
        (\<forall>ev2 n2 p2.
            isPress ev2 \<and> findLayer (layerStore st1) (Layers (config st1)) n2 = Inr (Some p2)
            \<longrightarrow> (\<exists>st2. executeBinding E ev2 (ToggleLayerBinding n2) st1 = Inr st2 \<and>
                    toggleLayerKeys st2 = Some [code ev2] \<and>
                    toggleLayerPrevious st2 = Some [currentLayer st1] \<and>
                    currentLayer st2 = p2)))) \<and>
   (\<not> isPress ev \<longrightarrow>
    executeBinding E ev (LayerBinding n) st =
      Inr (st\<lparr>trace := trace st @ [Log Debug ''Executing %T: %+v'']\<rparr>))"
proof (intro conjI impI)
  assume "isPress ev \<and>
    length (elems (toggleLayerKeys st)) = length (elems (toggleLayerPrevious st)) \<and>
    set (Layers (config st)) \<subseteq> {..<length (layerStore st)}"
  then obtain st1 where st1: "executeBinding E ev (LayerBinding n) st = Inr st1"
      "elems (toggleLayerKeys st1) = []" "elems (toggleLayerPrevious st1) = []"
      "layerStore st1 = layerStore st" "config st1 = config st"
      "\<forall>p. findLayer (layerStore st) (Layers (config st)) n = Inr (Some p)
            \<longrightarrow> currentLayer st1 = p"
    using executeBinding_Layer_press[of ev st E n] by blast
  have "\<forall>ev2 n2 p2.
            isPress ev2 \<and> findLayer (layerStore st1) (Layers (config st1)) n2 = Inr (Some p2)
            \<longrightarrow> (\<exists>st2. executeBinding E ev2 (ToggleLayerBinding n2) st1 = Inr st2 \<and>
                    toggleLayerKeys st2 = Some [code ev2] \<and>
                    toggleLayerPrevious st2 = Some [currentLayer st1] \<and>
                    currentLayer st2 = p2)"
  proof (intro allI impI, elim conjE)
    fix ev2 :: KeyboardEvent and n2 p2
    assume a: "isPress ev2"
      "findLayer (layerStore st1) (Layers (config st1)) n2 = Inr (Some p2)"
    show "\<exists>st2. executeBinding E ev2 (ToggleLayerBinding n2) st1 = Inr st2 \<and>
                    toggleLayerKeys st2 = Some [code ev2] \<and>
                    toggleLayerPrevious st2 = Some [currentLayer st1] \<and>
                    currentLayer st2 = p2"
      by (simp only: executeBinding_ToggleLayer_press[OF a] st1(2,3)) simp
  qed
  with st1 show "\<exists>st1. executeBinding E ev (LayerBinding n) st = Inr st1 \<and>
        elems (toggleLayerKeys st1) = [] \<and> elems (toggleLayerPrevious st1) = [] \<and>
        layerStore st1 = layerStore st \<and> config st1 = config st \<and>
        (\<forall>p. findLayer (layerStore st) (Layers (config st)) n = Inr (Some p)
              \<longrightarrow> currentLayer st1 = p) \<and>
        (\<forall>ev2 n2 p2.
            isPress ev2 \<and> findLayer (layerStore st1) (Layers (config st1)) n2 = Inr (Some p2)
            \<longrightarrow> (\<exists>st2. executeBinding E ev2 (ToggleLayerBinding n2) st1 = Inr st2 \<and>
                    toggleLayerKeys st2 = Some [code ev2] \<and>
                    toggleLayerPrevious st2 = Some [currentLayer st1] \<and>
                    currentLayer st2 = p2))"
    by blast
next
  assume "\<not> isPress ev"
  then show "executeBinding E ev (LayerBinding n) st =
      Inr (st\<lparr>trace := trace st @ [Log Debug ''Executing %T: %+v'']\<rparr>)"
    by (simp add: logExecuting_def logf_def)
qed

theorem layer_press_empties_stack_witness:
  "isPress (press 60) \<and>
   length (elems (toggleLayerKeys toggledW)) = length (elems (toggleLayerPrevious toggledW)) \<and>
   elems (toggleLayerKeys toggledW) = [58] \<and>
   set (Layers (config toggledW)) \<subseteq> {..<length (layerStore toggledW)} \<and>
   (\<exists>st1. executeBinding envW (press 60) (LayerBinding ''base'') toggledW = Inr st1 \<and>
       elems (toggleLayerKeys st1) = [] \<and> elems (toggleLayerPrevious st1) = [] \<and>
       currentLayer st1 = 0 \<and>
       (\<exists>st2. executeBinding envW (press 58) (ToggleLayerBinding ''nav'') st1 = Inr st2 \<and>
          toggleLayerKeys st2 = Some [58] \<and> toggleLayerPrevious st2 = Some [0] \<and>
          currentLayer st2 = 1)) \<and>
   \<not> isPress (release 60) \<and>
   executeBinding envW (release 60) (LayerBinding ''base'') toggledW =
     Inr (toggledW\<lparr>trace := trace toggledW @ [Log Debug ''Executing %T: %+v'']\<rparr>)"
proof -
  have h: "isPress (press 60) \<and>
     length (elems (toggleLayerKeys toggledW)) = length (elems (toggleLayerPrevious toggledW)) \<and>
     set (Layers (config toggledW)) \<subseteq> {..<length (layerStore toggledW)}"
    by (simp add: press_def toggledW_def elems_def mkConfig_def)
  have k: "elems (toggleLayerKeys toggledW) = [58]"
    by (simp add: toggledW_def elems_def)
  have fb: "findLayer (layerStore toggledW) (Layers (config toggledW)) ''base'' = Inr (Some 0)"
    and fn: "findLayer (layerStore toggledW) (Layers (config toggledW)) ''nav'' = Inr (Some 1)"
    by (simp_all add: toggledW_def mkConfig_def deref_def layerBase_def layerNav_def)
  have p58: "isPress (press 58)" "code (press 58) = 58"
    by (simp_all add: press_def)
  have r: "\<not> isPress (release 60)"
    by (simp add: release_def)
  from h layer_press_empties_stack [of "press 60" toggledW envW "''base''"]
  obtain st1 where st1: "executeBinding envW (press 60) (LayerBinding ''base'') toggledW = Inr st1"
      "elems (toggleLayerKeys st1) = []" "elems (toggleLayerPrevious st1) = []"
      "layerStore st1 = layerStore toggledW" "config st1 = config toggledW"
      "\<forall>p. findLayer (layerStore toggledW) (Layers (config toggledW)) ''base'' = Inr (Some p)
            \<longrightarrow> currentLayer st1 = p"
      "\<forall>ev2 n2 p2.
            isPress ev2 \<and> findLayer (layerStore st1) (Layers (config st1)) n2 = Inr (Some p2)
            \<longrightarrow> (\<exists>st2. executeBinding envW ev2 (ToggleLayerBinding n2) st1 = Inr st2 \<and>
                    toggleLayerKeys st2 = Some [code ev2] \<and>
                    toggleLayerPrevious st2 = Some [currentLayer st1] \<and>
                    currentLayer st2 = p2)"
    by blast
  from st1(6) fb have c1: "currentLayer st1 = 0" by blast
  from st1(7) p58(1) fn st1(4,5)
  have "\<exists>st2. executeBinding envW (press 58) (ToggleLayerBinding ''nav'') st1 = Inr st2 \<and>
          toggleLayerKeys st2 = Some [code (press 58)] \<and>
          toggleLayerPrevious st2 = Some [currentLayer st1] \<and> currentLayer st2 = 1"
    by simp
  then have t: "\<exists>st2. executeBinding envW (press 58) (ToggleLayerBinding ''nav'') st1 = Inr st2 \<and>
          toggleLayerKeys st2 = Some [58] \<and> toggleLayerPrevious st2 = Some [0] \<and>
          currentLayer st2 = 1"
    by (simp add: c1 p58)
  from r layer_press_empties_stack [of "release 60" toggledW envW "''base''"]
  have "executeBinding envW (release 60) (LayerBinding ''base'') toggledW =
     Inr (toggledW\<lparr>trace := trace toggledW @ [Log Debug ''Executing %T: %+v'']\<rparr>)"
    by blast
  with h k r st1(1,2,3) c1 t show ?thesis by blast
qed

section \<open>A Key binding works on a copy of its combo\<close>

lemma arrayAt_fresh: "arrayAt (as @ [ys]) (length as) = ys"
  by (simp add: arrayAt_def)

lemma write_array_fresh:
  "write_array (length as) i v (st\<lparr>arrayStore := as @ [ys]\<rparr>) =
   st\<lparr>arrayStore := as @ [ys[i := v]]\<rparr>"
  by (simp add: write_array_def arrayAt_fresh)

text \<open>The loop over the indices, after \<open>k\<close> rounds, on an array that sits at the end of
  the store.\<close>

lemma replace_fold:
  "k \<le> length xs \<Longrightarrow>
   fold (\<lambda>i s. if arrayAt (arrayStore s) (length as) ! i = w
                then write_array (length as) i c s else s)
        [0 ..< k] (st\<lparr>arrayStore := as @ [xs]\<rparr>) =
   st\<lparr>arrayStore := as @ [map (\<lambda>x. if x = w then c else x) (take k xs) @ drop k xs]\<rparr>"
proof (induction k)
  case 0
  then show ?case by simp
next
  case (Suc k)
  then have k: "k < length xs" by simp
  have split: "drop k xs = xs ! k # drop (Suc k) xs"
    using k by (simp add: Cons_nth_drop_Suc)
  let ?m = "map (\<lambda>x. if x = w then c else x) (take k xs)"
  have len: "length ?m = k" using k by simp
  have nth: "(?m @ drop k xs) ! k = xs ! k"
    using k len by (simp add: nth_append)
  have upd: "(?m @ drop k xs)[k := c] = ?m @ c # drop (Suc k) xs"
    using len by (subst split) (simp add: list_update_append)
  have ih: "fold (\<lambda>i s. if arrayAt (arrayStore s) (length as) ! i = w
                         then write_array (length as) i c s else s)
        [0 ..< k] (st\<lparr>arrayStore := as @ [xs]\<rparr>) =
      st\<lparr>arrayStore := as @ [?m @ drop k xs]\<rparr>"
    using Suc by simp
  show ?case
  proof (cases "xs ! k = w")
    case True
    then show ?thesis
      using k by (simp add: ih nth arrayAt_fresh write_array_fresh upd take_Suc_conv_app_nth)
  next
    case False
    then show ?thesis
      using k by (simp add: ih nth arrayAt_fresh take_Suc_conv_app_nth)
                 (simp add: split[symmetric])
  qed
qed

lemma replaceWildcards_fresh:
  "replaceWildcards E c (length as) (st\<lparr>arrayStore := as @ [xs]\<rparr>) =
   st\<lparr>arrayStore := as @ [map (\<lambda>x. if x = WildcardKey E then c else x) xs]\<rparr>"
  using replace_fold[of "length xs" xs as "WildcardKey E" c st]
  by (simp add: replaceWildcards_def arrayAt_fresh)

lemma copy_array_fresh:
  "copy_array (length as) src
     (st\<lparr>arrayStore := as @ [replicate (length (arrayAt as src)) 0]\<rparr>) =
   st\<lparr>arrayStore := as @ [arrayAt as src]\<rparr>"
  by (auto simp: copy_array_def Let_def arrayAt_def nth_append)

lemma executeBinding_Key_press:
  assumes p: "isPress ev"
  shows "executeBinding E ev (KeyBinding combo) st =
     Inr (st\<lparr>trace := trace st @ [Log Debug ''Executing %T: %+v'',
              PressKeys (code ev)
                (map (\<lambda>k. if k = WildcardKey E then code ev else k)
                     (arrayAt (arrayStore st) combo))],
             arrayStore := arrayStore st @
                [map (\<lambda>k. if k = WildcardKey E then code ev else k)
                     (arrayAt (arrayStore st) combo)]\<rparr>)"
proof -
  let ?st0 = "logExecuting st"
  let ?as = "arrayStore st"
  have a0: "arrayStore ?st0 = ?as"
    by (simp add: logExecuting_def logf_def)
  have m: "make_array (length (arrayAt ?as combo)) ?st0 =
     (length ?as, ?st0\<lparr>arrayStore := ?as @ [replicate (length (arrayAt ?as combo)) 0]\<rparr>)"
    by (simp add: make_array_def a0)
  have c: "copy_array (length ?as) combo
       (?st0\<lparr>arrayStore := ?as @ [replicate (length (arrayAt ?as combo)) 0]\<rparr>) =
     ?st0\<lparr>arrayStore := ?as @ [arrayAt ?as combo]\<rparr>"
    by (rule copy_array_fresh)
  have r: "replaceWildcards E (code ev) (length ?as)
       (?st0\<lparr>arrayStore := ?as @ [arrayAt ?as combo]\<rparr>) =
     ?st0\<lparr>arrayStore := ?as @ [map (\<lambda>k. if k = WildcardKey E then code ev else k)
                                    (arrayAt ?as combo)]\<rparr>"
    by (rule replaceWildcards_fresh)
  show ?thesis
    using p by (simp add: a0 m c r Let_def emit_def arrayAt_fresh)
               (simp add: logExecuting_def logf_def)
qed

text \<open>On a release the \<open>Key\<close> case does nothing but log.\<close>

lemma executeBinding_Key_release:
  "\<not> isPress ev \<Longrightarrow>
   executeBinding E ev (KeyBinding combo) st =
     Inr (st\<lparr>trace := trace st @ [Log Debug ''Executing %T: %+v'']\<rparr>)"
  by (simp add: logExecuting_def logf_def)

text \<open>
  Claim C10. Executing a \<open>Key\<close> binding, on a press or on a release, returns normally and
  mutates nothing that is stored: every array that existed before, the combo of the
  binding among them, has the contents it had, and so has every Layer object with its map
  of bindings. On a press the substitution is made in a new array, and the combo handed to
  \<open>PressKeys\<close> is the stored combo with the code of the event at every position of the
  wildcard and the stored key elsewhere. On a release nothing happens but a log line.
\<close>

theorem key_binding_substitutes_on_a_copy:
  "\<exists>st'. executeBinding E ev (KeyBinding combo) st = Inr st' \<and>
      take (length (arrayStore st)) (arrayStore st') = arrayStore st \<and>
      (combo < length (arrayStore st) \<longrightarrow>
         arrayAt (arrayStore st') combo = arrayAt (arrayStore st) combo) \<and>
      layerStore st' = layerStore st \<and> config st' = config st \<and>
      currentLayer st' = currentLayer st \<and>
      (isPress ev \<longrightarrow>
         trace st' = trace st @ [Log Debug ''Executing %T: %+v'',
           PressKeys (code ev)
             (map (\<lambda>k. if k = WildcardKey E then code ev else k)
                  (arrayAt (arrayStore st) combo))]) \<and>
      (\<not> isPress ev \<longrightarrow>
         st' = st\<lparr>trace := trace st @ [Log Debug ''Executing %T: %+v'']\<rparr>)"
proof (cases "isPress ev")
  case True
  then show ?thesis
    by (simp add: executeBinding_Key_press arrayAt_def nth_append del: executeBinding.simps)
next
  case False
  then show ?thesis
    by (simp add: executeBinding_Key_release del: executeBinding.simps)
qed

theorem key_binding_substitutes_on_a_copy_witness:
  "isPress (press 30) \<and>
   resolveBinding (press 30) navW = Inr (KeyBinding 0, navW) \<and>
   arrayAt (arrayStore navW) 0 = [29, 65535] \<and> WildcardKey envW = 65535 \<and>
   (\<exists>st'. executeBinding envW (press 30) (KeyBinding 0) navW = Inr st' \<and>
      trace st' = trace navW @ [Log Debug ''Executing %T: %+v'', PressKeys 30 [29, 30]] \<and>
      arrayAt (arrayStore st') 0 = [29, 65535] \<and>
      layerStore st' = layerStore navW) \<and>
   \<not> isPress (release 30) \<and>
   (\<exists>st'. executeBinding envW (release 30) (KeyBinding 0) navW = Inr st' \<and>
      st' = navW\<lparr>trace := trace navW @ [Log Debug ''Executing %T: %+v'']\<rparr> \<and>
      arrayAt (arrayStore st') 0 = [29, 65535] \<and>
      layerStore st' = layerStore navW)"
proof -
  have h: "isPress (press 30)"
    by (simp add: press_def)
  have r: "\<not> isPress (release 30)"
    by (simp add: release_def)
  have rb: "resolveBinding (press 30) navW = Inr (KeyBinding 0, navW)"
    by (simp add: run_defs navW_def layerBase_def layerNav_def)
  have v: "arrayAt (arrayStore navW) 0 = [29, 65535]" "WildcardKey envW = 65535"
    "code (press 30) = 30" "0 < length (arrayStore navW)"
    by (simp_all add: navW_def arrayAt_def envW_def press_def)
  from key_binding_substitutes_on_a_copy [of envW "press 30" 0 navW]
  obtain st' where st': "executeBinding envW (press 30) (KeyBinding 0) navW = Inr st'"
    "isPress (press 30) \<longrightarrow>
       trace st' = trace navW @ [Log Debug ''Executing %T: %+v'',
         PressKeys (code (press 30))
           (map (\<lambda>k. if k = WildcardKey envW then code (press 30) else k)
                (arrayAt (arrayStore navW) 0))]"
    "0 < length (arrayStore navW) \<longrightarrow>
         arrayAt (arrayStore st') 0 = arrayAt (arrayStore navW) 0"
    "layerStore st' = layerStore navW"
    by blast
  from st'(2) h have "trace st' =
      trace navW @ [Log Debug ''Executing %T: %+v'', PressKeys 30 [29, 30]]"
    by (simp add: v)
  moreover from st'(3) v have "arrayAt (arrayStore st') 0 = [29, 65535]"
    by simp
  ultimately have p: "\<exists>st'. executeBinding envW (press 30) (KeyBinding 0) navW = Inr st' \<and>
      trace st' = trace navW @ [Log Debug ''Executing %T: %+v'', PressKeys 30 [29, 30]] \<and>
      arrayAt (arrayStore st') 0 = [29, 65535] \<and>
      layerStore st' = layerStore navW"
    using st'(1,4) by blast
  from key_binding_substitutes_on_a_copy [of envW "release 30" 0 navW]
  obtain st2 where st2: "executeBinding envW (release 30) (KeyBinding 0) navW = Inr st2"
    "\<not> isPress (release 30) \<longrightarrow>
       st2 = navW\<lparr>trace := trace navW @ [Log Debug ''Executing %T: %+v'']\<rparr>"
    "0 < length (arrayStore navW) \<longrightarrow>
         arrayAt (arrayStore st2) 0 = arrayAt (arrayStore navW) 0"
    "layerStore st2 = layerStore navW"
    by blast
  from st2(3) v have "arrayAt (arrayStore st2) 0 = [29, 65535]"
    by simp
  with st2(1,2,4) r have q: "\<exists>st'. executeBinding envW (release 30) (KeyBinding 0) navW = Inr st' \<and>
      st' = navW\<lparr>trace := trace navW @ [Log Debug ''Executing %T: %+v'']\<rparr> \<and>
      arrayAt (arrayStore st') 0 = [29, 65535] \<and>
      layerStore st' = layerStore navW"
    by blast
  from h rb v(1,2) p r q show ?thesis by blast
qed

section \<open>The mouse loop parks\<close>

lemma accumulate_rest:
  "list_all (\<lambda>(c, b). pressed c \<longrightarrow>
       (case b of MoveBinding x y \<Rightarrow> x = 0 \<and> y = 0
                | ScrollBinding x y \<Rightarrow> x = 0 \<and> y = 0 | _ \<Rightarrow> True)) bs \<Longrightarrow>
   \<exists>s'. fold (accumulate pressed) bs (0, 0, 0, 0, s) = (0, 0, 0, 0, s')"
proof (induction bs arbitrary: s)
  case Nil
  then show ?case by simp
next
  case (Cons cb bs)
  obtain c b where cb: "cb = (c, b)" by (cases cb)
  from Cons.prems cb have "\<exists>s1. accumulate pressed cb (0, 0, 0, 0, s) = (0, 0, 0, 0, s1)"
    by (cases b) (auto simp: accumulate_def)
  then obtain s1 where "accumulate pressed cb (0, 0, 0, 0, s) = (0, 0, 0, 0, s1)"
    by blast
  with Cons show ?case by simp
qed

text \<open>
  Claim C9. In a pass of the main loop in which every \<open>Move\<close> and \<open>Scroll\<close> binding of the
  current layer (which is not nil) whose key is held contributes zero on both axes, in
  particular when none is held, whatever \<open>Speed\<close> bindings are held, and the virtual
  mouse reports no residual motion, the loop calls neither \<open>Scroll\<close> nor \<open>Move\<close>, the
  trace being unchanged, and the new timer is the one of \<open>math.MaxInt64\<close> nanoseconds
  instead of the 20 ms tick.
\<close>

theorem mouse_loop_parks_without_motion:
  "currentLayer st < length (layerStore st) \<and>
   list_all (\<lambda>(c, b). pressed c \<longrightarrow>
       (case b of MoveBinding x y \<Rightarrow> x = 0 \<and> y = 0
                | ScrollBinding x y \<Rightarrow> x = 0 \<and> y = 0 | _ \<Rightarrow> True))
     (Bindings (layerStore st ! currentLayer st)) \<longrightarrow>
   mouseTick pressed False st = Inr (MaxInt64, st) \<and> MaxInt64 \<noteq> mouseLoopInterval"
proof (intro impI, elim conjE)
  assume v: "currentLayer st < length (layerStore st)"
    and z: "list_all (\<lambda>(c, b). pressed c \<longrightarrow>
       (case b of MoveBinding x y \<Rightarrow> x = 0 \<and> y = 0
                | ScrollBinding x y \<Rightarrow> x = 0 \<and> y = 0 | _ \<Rightarrow> True))
     (Bindings (layerStore st ! currentLayer st))"
  from accumulate_rest[OF z, of 1] obtain s' where
    "fold (accumulate pressed) (Bindings (layerStore st ! currentLayer st)) (0, 0, 0, 0, 1) =
       (0, 0, 0, 0, s')"
    by blast
  with v show "mouseTick pressed False st = Inr (MaxInt64, st) \<and> MaxInt64 \<noteq> mouseLoopInterval"
    by (simp add: mouseTick_def deref_def MaxInt64_def mouseLoopInterval_def)
qed

theorem mouse_loop_parks_without_motion_witness:
  "currentLayer navW < length (layerStore navW) \<and>
   list_all (\<lambda>(c, b). c = 37 \<longrightarrow>
       (case b of MoveBinding x y \<Rightarrow> x = 0 \<and> y = 0
                | ScrollBinding x y \<Rightarrow> x = 0 \<and> y = 0 | _ \<Rightarrow> True))
     (Bindings (layerStore navW ! currentLayer navW)) \<and>
   lookupBinding (Bindings (layerStore navW ! currentLayer navW)) 37 = SpeedBinding 4 \<and>
   mouseTick (\<lambda>c. c = 37) False navW = Inr (MaxInt64, navW)"
proof -
  have h: "currentLayer navW < length (layerStore navW) \<and>
     list_all (\<lambda>(c, b). c = 37 \<longrightarrow>
       (case b of MoveBinding x y \<Rightarrow> x = 0 \<and> y = 0
                | ScrollBinding x y \<Rightarrow> x = 0 \<and> y = 0 | _ \<Rightarrow> True))
     (Bindings (layerStore navW ! currentLayer navW))"
    by (simp add: navW_def layerNav_def)
  have l: "lookupBinding (Bindings (layerStore navW ! currentLayer navW)) 37 = SpeedBinding 4"
    by (simp add: navW_def layerNav_def lookupBinding_def)
  from h mouse_loop_parks_without_motion [of navW "\<lambda>c. c = 37"]
  have "mouseTick (\<lambda>c. c = 37) False navW = Inr (MaxInt64, navW)"
    by blast
  with h l show ?thesis by blast
qed

text \<open>For contrast: with the key of a \<open>Move\<close> binding held, the same loop calls \<open>Scroll\<close>
  and \<open>Move\<close> and schedules the 20 ms tick.\<close>

lemma mouse_loop_ticks_with_motion:
  "mouseTick (\<lambda>c. c = 36) False navW =
     Inr (mouseLoopInterval,
          navW\<lparr>trace := trace navW @
             [MouseScroll 0 0,
              MouseMove 0 15 0 15 2 (Finite (1 / 10)) 3 (Finite (1 / 15)) 1]\<rparr>)"
  by (simp add: mouseTick_def deref_def navW_def layerNav_def accumulate_def emit_def fdiv_def
        mkConfig_def mouseLoopInterval_def)

section \<open>Every state the program reaches satisfies the invariant of the layer stack\<close>

lemma findLayer_valid: "findLayer ls ps n = Inr (Some p) \<Longrightarrow> p < length ls"
  by (induction ps) (auto simp: deref_def split: if_splits)

lemma loadConfig_stack_ok:
  assumes "loadConfig E st = Inr st'"
    and "length (elems (toggleLayerKeys st)) = length (elems (toggleLayerPrevious st))"
    and "set (elems (toggleLayerPrevious st)) \<subseteq> {..<length (layerStore st)}"
  shows "stack_ok st'"
proof (cases "parseConfig E (configReads st)")
  case (Inl err)
  with assms(1) show ?thesis by (simp add: loadConfig_def readConfig_def)
next
  case (Inr r)
  obtain cfg ls as where r: "r = (cfg, ls, as)" by (cases r)
  show ?thesis
  proof (cases "Layers cfg")
    case Nil
    with assms(1) Inr r show ?thesis by (simp add: loadConfig_def readConfig_def)
  next
    case (Cons p ps)
    with assms Inr r show ?thesis
      by (auto simp: loadConfig_def readConfig_def deref_def logf_def stack_ok_def
               split: if_splits)
  qed
qed

lemma logExecuting_stack_ok: "stack_ok (logExecuting st) = stack_ok st"
  by (simp add: logExecuting_def logf_def stack_ok_def)

lemma Layer_stack_ok:
  assumes "stack_ok st" "executeBinding E ev (LayerBinding n) st = Inr st'"
  shows "stack_ok st'"
proof (cases "isPress ev")
  case False
  with assms show ?thesis by (auto simp: Let_def logExecuting_stack_ok)
next
  case True
  let ?st0 = "logExecuting st"
  let ?st1 = "if toggleLayerPrevious ?st0 \<noteq> None
              then ?st0\<lparr>toggleLayerKeys := None, toggleLayerPrevious := None\<rparr> else ?st0"
  have ok1: "stack_ok ?st1"
    using assms(1) by (simp add: logExecuting_def logf_def stack_ok_def elems_def)
  show ?thesis
  proof (cases "findLayer (layerStore ?st1) (Layers (config ?st1)) n")
    case (Inl e)
    with True assms(2) show ?thesis by (simp add: Let_def)
  next
    case (Inr r)
    show ?thesis
    proof (cases r)
      case None
      with Inr True assms(2) have "st' = ?st1" by (simp add: Let_def)
      with ok1 show ?thesis by simp
    next
      case (Some p)
      with Inr have "p < length (layerStore ?st1)" by (auto dest: findLayer_valid)
      moreover from Some Inr True assms(2)
      have "st' = (logf Debug ''Switching to layer %v'' ?st1)\<lparr>currentLayer := p\<rparr>"
        by (simp add: Let_def)
      ultimately show ?thesis using ok1 by (simp add: stack_ok_def logf_def)
    qed
  qed
qed

lemma ToggleLayer_stack_ok:
  assumes "stack_ok st" "executeBinding E ev (ToggleLayerBinding n) st = Inr st'"
  shows "stack_ok st'"
proof (cases "isPress ev")
  case False
  with assms show ?thesis by (auto simp: Let_def logExecuting_stack_ok)
next
  case True
  let ?st0 = "logExecuting st"
  have ok0: "stack_ok ?st0"
    using assms(1) by (simp add: logExecuting_stack_ok)
  show ?thesis
  proof (cases "findLayer (layerStore ?st0) (Layers (config ?st0)) n")
    case (Inl e)
    with True assms(2) show ?thesis by (simp add: Let_def)
  next
    case (Inr r)
    show ?thesis
    proof (cases r)
      case None
      with Inr True assms(2) have "st' = ?st0" by (simp add: Let_def)
      with ok0 show ?thesis by simp
    next
      case (Some p)
      with Inr have "p < length (layerStore ?st0)" by (auto dest: findLayer_valid)
      moreover from Some Inr True assms(2)
      have "st' = (logf Debug ''Switching to layer %v'' ?st0)
               \<lparr>toggleLayerKeys := append_slice (toggleLayerKeys ?st0) (code ev),
                toggleLayerPrevious := append_slice (toggleLayerPrevious ?st0) (currentLayer ?st0),
                currentLayer := p\<rparr>"
        by (simp add: Let_def logf_def)
      ultimately show ?thesis
        using ok0 by (simp add: stack_ok_def logf_def append_slice_def elems_def)
    qed
  qed
qed

lemma Reload_stack_ok:
  assumes "stack_ok st" "executeBinding E ev ReloadConfigBinding st = Inr st'"
  shows "stack_ok st'"
proof (cases "isPress ev")
  case False
  with assms show ?thesis by (auto simp: Let_def logExecuting_stack_ok)
next
  case True
  with assms(2) have l: "loadConfig E (logExecuting st) = Inr st'" by (simp add: Let_def)
  from assms(1) have "stack_ok (logExecuting st)" by (simp add: logExecuting_stack_ok)
  then show ?thesis
    by (intro loadConfig_stack_ok[OF l]) (simp_all add: stack_ok_def)
qed

lemma Key_stack_ok:
  assumes "stack_ok st" "executeBinding E ev (KeyBinding combo) st = Inr st'"
  shows "stack_ok st'"
proof (cases "isPress ev")
  case False
  with assms show ?thesis by (auto simp: Let_def logExecuting_stack_ok)
next
  case True
  from assms(2) show ?thesis
    unfolding executeBinding_Key_press[OF True]
    using assms(1) by (auto simp: stack_ok_def)
qed

lemma other_stack_ok:
  assumes "stack_ok st"
  shows "executeBinding E ev (ButtonBinding b) st = Inr st' \<Longrightarrow> stack_ok st'"
    and "executeBinding E ev (ExecBinding cmd) st = Inr st' \<Longrightarrow> stack_ok st'"
    and "executeBinding E ev NilBinding st = Inr st' \<Longrightarrow> stack_ok st'"
    and "executeBinding E ev (SpeedBinding f) st = Inr st' \<Longrightarrow> stack_ok st'"
    and "executeBinding E ev (ScrollBinding x y) st = Inr st' \<Longrightarrow> stack_ok st'"
    and "executeBinding E ev (MoveBinding x y) st = Inr st' \<Longrightarrow> stack_ok st'"
    and "executeBinding E ev OtherBinding st = Inr st' \<Longrightarrow> stack_ok st'"
  using assms
  by (auto simp: Let_def logExecuting_def logf_def emit_def stack_ok_def
           split: if_splits option.splits)

lemma executeBinding_stack_ok:
  "stack_ok st \<Longrightarrow> executeBinding E ev b st = Inr st' \<Longrightarrow> stack_ok st'"
  "stack_ok st \<Longrightarrow> executeBindings E ev bs st = Inr st' \<Longrightarrow> stack_ok st'"
proof (induction E ev b st and E ev bs st arbitrary: st' and st'
       rule: executeBinding_executeBindings.induct)
  case (1 E ev st)
  then show ?case by simp
next
  case (2 E ev b bs st)
  then show ?case by (auto split: sum.splits)
next
  case (3 E ev bs st)
  then show ?case by (simp add: logExecuting_stack_ok)
next
  case (4 E ev tap hold st)
  then show ?case by (cases "holdKey ev") (simp_all add: logExecuting_stack_ok)
next
  case (5 E ev n st)
  then show ?case by (rule Layer_stack_ok)
next
  case (6 E ev n st)
  then show ?case by (rule ToggleLayer_stack_ok)
next
  case (7 E ev st)
  then show ?case by (rule Reload_stack_ok)
next
  case (8 E ev combo st)
  then show ?case by (rule Key_stack_ok)
next
  case (9 E ev b st)
  then show ?case by (rule other_stack_ok(1))
next
  case (10 E ev cmd st)
  then show ?case by (rule other_stack_ok(2))
next
  case (11 E ev st)
  then show ?case by (rule other_stack_ok(3))
next
  case (12 E ev f st)
  then show ?case by (rule other_stack_ok(4))
next
  case (13 E ev x y st)
  then show ?case by (rule other_stack_ok(5))
next
  case (14 E ev x y st)
  then show ?case by (rule other_stack_ok(6))
next
  case (15 E ev st)
  then show ?case by (rule other_stack_ok(7))
qed

lemma resolveBinding_stack_ok:
  "stack_ok st \<Longrightarrow> resolveBinding ev st = Inr (b, st1) \<Longrightarrow> stack_ok st1"
  by (auto simp: resolveBinding_def Let_def array_literal_def stack_ok_def
           split: sum.splits if_splits)

lemma releaseToggle_stack_ok:
  assumes "stack_ok st" "releaseToggle ev st = Inr st'"
  shows "stack_ok st'"
proof (cases "\<not> isPress ev \<and> findKey (code ev) (elems (toggleLayerKeys st)) 0 \<noteq> None")
  case False
  with assms show ?thesis by (auto simp: releaseToggle_def split: if_splits option.splits)
next
  case True
  then obtain i where i: "findKey (code ev) (elems (toggleLayerKeys st)) 0 = Some i" by blast
  with True assms(2) have lt: "i < length (elems (toggleLayerPrevious st))"
    by (auto simp: releaseToggle_def split: if_splits)
  then have v: "elems (toggleLayerPrevious st) ! i < length (layerStore st)"
    using assms(1) nth_mem[OF lt] unfolding stack_ok_def by blast
  with True i lt assms(2) have "st' = st\<lparr>currentLayer := elems (toggleLayerPrevious st) ! i,
              trace := trace st @ [Log Debug ''Switching to layer %v''],
              toggleLayerKeys := Some (take i (elems (toggleLayerKeys st))),
              toggleLayerPrevious := Some (take i (elems (toggleLayerPrevious st)))\<rparr>"
    by (auto simp: releaseToggle_def deref_def logf_def Let_def)
  with assms(1) v show ?thesis
    by (auto simp: stack_ok_def elems_def dest: in_set_takeD split: option.splits)
qed

lemma handleKey_stack_ok:
  assumes "stack_ok st" "handleKey E ev st = Inr st'"
  shows "stack_ok st'"
proof -
  from assms(2) obtain b st1 st2 where
    r: "resolveBinding ev st = Inr (b, st1)" and t: "releaseToggle ev st1 = Inr st2"
    and e: "executeBinding E ev b (informKeyUp ev st2) = Inr st'"
    by (auto simp: handleKey_def split: sum.splits prod.splits)
  from resolveBinding_stack_ok[OF assms(1) r] have "stack_ok st1" .
  from releaseToggle_stack_ok[OF this t] have "stack_ok (informKeyUp ev st2)"
    by (simp add: informKeyUp_def emit_def stack_ok_def)
  from executeBinding_stack_ok(1)[OF this e] show ?thesis .
qed

lemma handleKeys_stack_ok:
  "stack_ok st \<Longrightarrow> handleKeys E evs st = Inr st' \<Longrightarrow> stack_ok st'"
  by (induction evs arbitrary: st) (auto split: sum.splits dest: handleKey_stack_ok)

lemma reachable_stack_ok:
  assumes "loadConfig E startState = Inr st0" "handleKeys E evs st0 = Inr st"
  shows "stack_ok st"
proof -
  have "stack_ok st0"
    using assms(1) by (rule loadConfig_stack_ok) (simp_all add: startState_def elems_def)
  then show ?thesis using assms(2) by (rule handleKeys_stack_ok)
qed

text \<open>So the conditions on the state under which a release pops the stack hold wherever
  the program can be.\<close>

lemma reachable_release_pops:
  assumes "loadConfig E startState = Inr st0" "handleKeys E evs st0 = Inr st"
    and "\<not> isPress ev"
    and "i < length (elems (toggleLayerKeys st))"
    and "elems (toggleLayerKeys st) ! i = code ev"
    and "code ev \<notin> set (take i (elems (toggleLayerKeys st)))"
  shows "\<exists>st'. handleKey E ev st = Inr st' \<and>
           currentLayer st' = elems (toggleLayerPrevious st) ! i \<and>
           toggleLayerKeys st' = Some (take i (elems (toggleLayerKeys st))) \<and>
           toggleLayerPrevious st' = Some (take i (elems (toggleLayerPrevious st)))"
proof -
  from reachable_stack_ok[OF assms(1,2)] have ok: "stack_ok st" .
  then have l: "length (elems (toggleLayerPrevious st)) = length (elems (toggleLayerKeys st))"
    and c: "currentLayer st < length (layerStore st)"
    and s: "set (elems (toggleLayerPrevious st)) \<subseteq> {..<length (layerStore st)}"
    by (simp_all add: stack_ok_def)
  from assms(4) l have "elems (toggleLayerPrevious st) ! i \<in> set (elems (toggleLayerPrevious st))"
    by simp
  with s have "elems (toggleLayerPrevious st) ! i < length (layerStore st)"
    by blast
  with assms(3-6) l c show ?thesis
    by (intro handleKey_release_pops) simp_all
qed

section \<open>Layer objects and stored combos are never written after they are loaded\<close>

text \<open>Whatever the binding and whatever the event, executing it leaves every Layer
  object and every array that existed before as it was: the stores only grow, by the
  copies of combos and by what a reload allocates.\<close>

lemma loadConfig_stores_grow:
  assumes "loadConfig E st = Inr st'"
  shows "(\<exists>ls. layerStore st' = layerStore st @ ls) \<and> (\<exists>as. arrayStore st' = arrayStore st @ as)"
proof (cases "parseConfig E (configReads st)")
  case (Inl err)
  with assms show ?thesis by (simp add: loadConfig_def readConfig_def)
next
  case (Inr r)
  obtain cfg ls as where r: "r = (cfg, ls, as)" by (cases r)
  show ?thesis
  proof (cases "Layers cfg")
    case Nil
    with assms Inr r show ?thesis by (simp add: loadConfig_def readConfig_def)
  next
    case (Cons p ps)
    with assms Inr r show ?thesis
      by (auto simp: loadConfig_def readConfig_def deref_def logf_def split: if_splits)
  qed
qed

lemma Layer_stores:
  assumes "executeBinding E ev (LayerBinding n) st = Inr st'"
  shows "layerStore st' = layerStore st \<and> arrayStore st' = arrayStore st"
proof (cases "isPress ev")
  case False
  with assms show ?thesis by (auto simp: Let_def logExecuting_def logf_def)
next
  case True
  let ?st0 = "logExecuting st"
  let ?st1 = "if toggleLayerPrevious ?st0 \<noteq> None
              then ?st0\<lparr>toggleLayerKeys := None, toggleLayerPrevious := None\<rparr> else ?st0"
  have s1: "layerStore ?st1 = layerStore st \<and> arrayStore ?st1 = arrayStore st"
    by (simp add: logExecuting_def logf_def)
  show ?thesis
  proof (cases "findLayer (layerStore ?st1) (Layers (config ?st1)) n")
    case (Inl e)
    with True assms show ?thesis by (simp add: Let_def)
  next
    case (Inr r)
    show ?thesis
    proof (cases r)
      case None
      with Inr True assms have "st' = ?st1" by (simp add: Let_def)
      with s1 show ?thesis by simp
    next
      case (Some p)
      with Inr True assms
      have "st' = (logf Debug ''Switching to layer %v'' ?st1)\<lparr>currentLayer := p\<rparr>"
        by (simp add: Let_def)
      with s1 show ?thesis by (simp add: logf_def)
    qed
  qed
qed

lemma ToggleLayer_stores:
  assumes "executeBinding E ev (ToggleLayerBinding n) st = Inr st'"
  shows "layerStore st' = layerStore st \<and> arrayStore st' = arrayStore st"
proof (cases "isPress ev")
  case False
  with assms show ?thesis by (auto simp: Let_def logExecuting_def logf_def)
next
  case True
  let ?st0 = "logExecuting st"
  have s0: "layerStore ?st0 = layerStore st \<and> arrayStore ?st0 = arrayStore st"
    by (simp add: logExecuting_def logf_def)
  show ?thesis
  proof (cases "findLayer (layerStore ?st0) (Layers (config ?st0)) n")
    case (Inl e)
    with True assms show ?thesis by (simp add: Let_def)
  next
    case (Inr r)
    show ?thesis
    proof (cases r)
      case None
      with Inr True assms have "st' = ?st0" by (simp add: Let_def)
      with s0 show ?thesis by simp
    next
      case (Some p)
      with Inr True assms
      have "st' = (logf Debug ''Switching to layer %v'' ?st0)
               \<lparr>toggleLayerKeys := append_slice (toggleLayerKeys ?st0) (code ev),
                toggleLayerPrevious := append_slice (toggleLayerPrevious ?st0) (currentLayer ?st0),
                currentLayer := p\<rparr>"
        by (simp add: Let_def logf_def)
      with s0 show ?thesis by (simp add: logf_def)
    qed
  qed
qed

lemma other_stores:
  "executeBinding E ev (ButtonBinding b) st = Inr st' \<Longrightarrow>
     layerStore st' = layerStore st \<and> arrayStore st' = arrayStore st"
  "executeBinding E ev (ExecBinding cmd) st = Inr st' \<Longrightarrow>
     layerStore st' = layerStore st \<and> arrayStore st' = arrayStore st"
  "executeBinding E ev NilBinding st = Inr st' \<Longrightarrow>
     layerStore st' = layerStore st \<and> arrayStore st' = arrayStore st"
  "executeBinding E ev (SpeedBinding f) st = Inr st' \<Longrightarrow>
     layerStore st' = layerStore st \<and> arrayStore st' = arrayStore st"
  "executeBinding E ev (ScrollBinding x y) st = Inr st' \<Longrightarrow>
     layerStore st' = layerStore st \<and> arrayStore st' = arrayStore st"
  "executeBinding E ev (MoveBinding x y) st = Inr st' \<Longrightarrow>
     layerStore st' = layerStore st \<and> arrayStore st' = arrayStore st"
  "executeBinding E ev OtherBinding st = Inr st' \<Longrightarrow>
     layerStore st' = layerStore st \<and> arrayStore st' = arrayStore st"
  by (auto simp: Let_def logExecuting_def logf_def emit_def split: if_splits option.splits)

lemma executeBinding_stores_grow:
  "executeBinding E ev b st = Inr st' \<Longrightarrow>
     (\<exists>ls. layerStore st' = layerStore st @ ls) \<and> (\<exists>as. arrayStore st' = arrayStore st @ as)"
  "executeBindings E ev bs st = Inr st' \<Longrightarrow>
     (\<exists>ls. layerStore st' = layerStore st @ ls) \<and> (\<exists>as. arrayStore st' = arrayStore st @ as)"
proof (induction E ev b st and E ev bs st arbitrary: st' and st'
       rule: executeBinding_executeBindings.induct)
  case (1 E ev st)
  then show ?case by simp
next
  case (2 E ev b bs st)
  then obtain st1 where a: "executeBinding E ev b st = Inr st1"
    and b: "executeBindings E ev bs st1 = Inr st'"
    by (auto split: sum.splits)
  from 2(1)[OF a] obtain ls1 as1 where
    "layerStore st1 = layerStore st @ ls1" "arrayStore st1 = arrayStore st @ as1" by blast
  moreover from 2(2)[OF a b] obtain ls2 as2 where
    "layerStore st' = layerStore st1 @ ls2" "arrayStore st' = arrayStore st1 @ as2" by blast
  ultimately show ?case by simp
next
  case (3 E ev bs st)
  then show ?case by (simp add: logExecuting_def logf_def)
next
  case (4 E ev tap hold st)
  then show ?case by (cases "holdKey ev") (simp_all add: logExecuting_def logf_def)
next
  case (5 E ev n st)
  from Layer_stores[OF this] show ?case by simp
next
  case (6 E ev n st)
  from ToggleLayer_stores[OF this] show ?case by simp
next
  case (7 E ev st)
  show ?case
  proof (cases "isPress ev")
    case True
    with 7 have "loadConfig E (logExecuting st) = Inr st'" by (simp add: Let_def)
    from loadConfig_stores_grow[OF this] show ?thesis
      by (simp add: logExecuting_def logf_def)
  next
    case False
    with 7 show ?thesis by (auto simp: Let_def logExecuting_def logf_def)
  qed
next
  case (8 E ev combo st)
  show ?case
  proof (cases "isPress ev")
    case True
    from 8 show ?thesis
      unfolding executeBinding_Key_press[OF True] by auto
  next
    case False
    from 8 show ?thesis
      unfolding executeBinding_Key_release[OF False] by auto
  qed
next
  case (9 E ev b st)
  from other_stores(1)[OF this] show ?case by simp
next
  case (10 E ev cmd st)
  from other_stores(2)[OF this] show ?case by simp
next
  case (11 E ev st)
  from other_stores(3)[OF this] show ?case by simp
next
  case (12 E ev f st)
  from other_stores(4)[OF this] show ?case by simp
next
  case (13 E ev x y st)
  from other_stores(5)[OF this] show ?case by simp
next
  case (14 E ev x y st)
  from other_stores(6)[OF this] show ?case by simp
next
  case (15 E ev st)
  from other_stores(7)[OF this] show ?case by simp
qed

lemma resolveBinding_stores_grow:
  "resolveBinding ev st = Inr (b, st1) \<Longrightarrow>
     layerStore st1 = layerStore st \<and> (\<exists>as. arrayStore st1 = arrayStore st @ as)"
  by (auto simp: resolveBinding_def Let_def array_literal_def split: sum.splits if_splits)

lemma releaseToggle_stores:
  assumes "releaseToggle ev st = Inr st'"
  shows "layerStore st' = layerStore st \<and> arrayStore st' = arrayStore st"
proof (cases "\<not> isPress ev \<and> findKey (code ev) (elems (toggleLayerKeys st)) 0 \<noteq> None")
  case False
  with assms show ?thesis
    by (auto simp: releaseToggle_def split: if_splits option.splits)
next
  case True
  then obtain i where i: "findKey (code ev) (elems (toggleLayerKeys st)) 0 = Some i"
    by blast
  with True assms have lt: "i < length (elems (toggleLayerPrevious st))"
    by (auto simp: releaseToggle_def split: if_splits)
  with True i assms show ?thesis
    by (auto simp: releaseToggle_def deref_def logf_def Let_def split: if_splits)
qed

text \<open>Handling an event leaves every Layer object and every array that existed before as
  it was: the stores only grow.\<close>

lemma handleKey_stores_grow:
  assumes "handleKey E ev st = Inr st'"
  shows "(\<exists>ls. layerStore st' = layerStore st @ ls) \<and>
         (\<exists>as. arrayStore st' = arrayStore st @ as)"
proof -
  from assms obtain b st1 st2 where
    r: "resolveBinding ev st = Inr (b, st1)" and t: "releaseToggle ev st1 = Inr st2"
    and e: "executeBinding E ev b (informKeyUp ev st2) = Inr st'"
    by (auto simp: handleKey_def split: sum.splits prod.splits)
  from resolveBinding_stores_grow[OF r] obtain as1 where
    1: "layerStore st1 = layerStore st" "arrayStore st1 = arrayStore st @ as1"
    by blast
  from releaseToggle_stores[OF t] have
    2: "layerStore st2 = layerStore st1" "arrayStore st2 = arrayStore st1"
    by simp_all
  have 3: "layerStore (informKeyUp ev st2) = layerStore st2"
    "arrayStore (informKeyUp ev st2) = arrayStore st2"
    by (simp_all add: informKeyUp_def emit_def)
  from executeBinding_stores_grow(1)[OF e] obtain ls as where
    "layerStore st' = layerStore (informKeyUp ev st2) @ ls"
    "arrayStore st' = arrayStore (informKeyUp ev st2) @ as"
    by blast
  with 1 2 3 show ?thesis by simp
qed

end
